theory Spec2Isabelle
  imports Main
begin

section \<open>The timeline sync writer of hydrogen-web\<close>

text \<open>
  A shallow embedding of the class \<open>SyncWriter\<close> and of \<open>deduplicateEvents\<close>
  (the second module of \<open>src/unnamed/part_000\<close>). The JavaScript is asynchronous
  but sequential: every \<open>await\<close> is a plain call here. The writer object, the
  storage transaction and the fragment-id comparer are mutable objects in the source;
  here they are records that every method takes and returns. A \<open>throw\<close> is the
  left injection of a sum, returned together with the state reached when it was thrown.
  Calls on the \<open>log\<close> argument only record diagnostics and are left out.
\<close>

subsection \<open>Sync response\<close>

text \<open>
  An event of the sync response. \<open>state_key\<close> is \<open>None\<close> when
  \<open>typeof event.state_key\<close> is not \<open>"string"\<close>.
\<close>

record event =
  event_id :: string
  etype :: string
  sender :: string
  state_key :: "string option"
  content :: string

text \<open>
  The \<open>timeline\<close> section. \<open>events\<close> is \<open>None\<close> when the field is not an
  array; \<open>limited\<close> is the truthiness of the field; \<open>prev_batch\<close> is \<open>None\<close>
  when the field is absent.
\<close>

record timeline =
  events :: "event list option"
  limited :: bool
  prev_batch :: "string option"

text \<open>
  The room response: \<open>state\<close> is \<open>None\<close> when \<open>state?.events\<close> is not an array,
  \<open>timeline\<close> is \<open>None\<close> when the section is missing.
\<close>

record roomResponse =
  state :: "event list option"
  timeline :: "timeline option"

subsection \<open>EventKey\<close>

text \<open>
  Modelled from the spec: the module \<open>EventKey\<close> is imported by the writer and is not
  among the sources. The spec gives the key as an ordered pair of integers, the fragment
  id and the event index.
\<close>

record EventKey =
  fragmentId :: int
  eventIndex :: int

text \<open>
  The values that the writer reads from modules that are not among the sources and that
  the spec leaves open: \<open>EventKey.defaultLiveKey\<close>, the event index at which a new
  fragment starts, and the member event type imported from \<open>RoomMember.js\<close>. Every
  function below that needs them takes them as a parameter.
\<close>

record constants =
  defaultLiveKey :: EventKey
  fragmentStartIndex :: int
  MEMBER_EVENT_TYPE :: string

text \<open>
  Modelled from the spec: \<open>EventKey.nextKey\<close>, which is not among the sources,
  increments the event index.
\<close>

definition nextKey :: "EventKey \<Rightarrow> EventKey" where
  "nextKey k = k\<lparr>eventIndex := eventIndex k + 1\<rparr>"

text \<open>
  Modelled from the spec: \<open>EventKey.nextFragmentKey\<close>, which is not among the sources,
  takes a new fragment id, the next one, and resets the event index to a defined starting
  value.
\<close>

definition nextFragmentKey :: "constants \<Rightarrow> EventKey \<Rightarrow> EventKey" where
  "nextFragmentKey c k = \<lparr>fragmentId = fragmentId k + 1, eventIndex = fragmentStartIndex c\<rparr>"

text \<open>
  Modelled from the spec: the total order of \<open>EventKey\<close>, which is not among the
  sources, compares the fragment id first and the event index second.
\<close>

definition EventKey_less :: "EventKey \<Rightarrow> EventKey \<Rightarrow> bool" where
  "EventKey_less a b =
     (fragmentId a < fragmentId b \<or> (fragmentId a = fragmentId b \<and> eventIndex a < eventIndex b))"

subsection \<open>Stored data\<close>

record fragment =
  f_roomId :: string
  f_id :: int
  previousId :: "int option"
  nextId :: "int option"
  previousToken :: "string option"
  nextToken :: "string option"

text \<open>
  A stored event: the key, the room id and the raw event, and the sender's profile that
  the writer sets on it.
\<close>

record storageEntry =
  s_key :: EventKey
  s_roomId :: string
  s_event :: event
  displayName :: "string option"
  avatarUrl :: "string option"

text \<open>
  Modelled from the spec: \<open>createEventEntry\<close> of \<open>./common.js\<close>, which is not among
  the sources, builds a storage entry carrying the raw event, the key and the room id.
\<close>

definition createEventEntry :: "EventKey \<Rightarrow> string \<Rightarrow> event \<Rightarrow> storageEntry" where
  "createEventEntry k r e =
     \<lparr>s_key = k, s_roomId = r, s_event = e, displayName = None, avatarUrl = None\<rparr>"

text \<open>
  The entries handed back to the caller: \<open>new EventEntry(storageEntry, comparer)\<close>,
  \<open>FragmentBoundaryEntry.start(fragment, comparer)\<close> and
  \<open>FragmentBoundaryEntry.end(fragment, comparer)\<close>.
\<close>

datatype entry =
  EventEntry storageEntry
| FragmentBoundaryStart fragment
| FragmentBoundaryEnd fragment

record member =
  m_displayName :: "string option"
  m_avatarUrl :: "string option"

record memberChange =
  userId :: string
  change :: member

subsection \<open>Collaborators\<close>

text \<open>
  The member writer and the relation writer are constructor arguments of the writer.
  They are parameters here: each method is a function on the collaborator's own state
  (\<open>'m\<close>, \<open>'r\<close>: its cache and its stores of the transaction), which it may change.
  They do not touch the fragment store, the event store's insertions or the comparer.
\<close>

record 'm memberWriter =
  lookupMember :: "string \<Rightarrow> event \<Rightarrow> event list \<Rightarrow> 'm \<Rightarrow> member option \<times> 'm"
  writeStateMemberEvent :: "event \<Rightarrow> bool option \<Rightarrow> 'm \<Rightarrow> memberChange option \<times> 'm"
  writeTimelineMemberEvent :: "event \<Rightarrow> 'm \<Rightarrow> memberChange option \<times> 'm"

record 'r relationWriter =
  writeRelation :: "entry \<Rightarrow> 'r \<Rightarrow> entry list option \<times> 'r"

text \<open>
  The fragment-id comparer is known through the two calls the writer makes on it; its
  state is the sequence of those calls.
\<close>

datatype comparerOp =
  ComparerAdd fragment
| ComparerAppend int int

subsection \<open>The transaction\<close>

text \<open>
  The stores of the transaction are not among the sources; the spec lists their
  operations. Here the fragment store is the sequence of the fragments added, the event
  store the sequence of the entries inserted, and the room state store a map keyed by
  room, type and state key. \<open>roomMembers\<close> and \<open>relations\<close> stand for what the
  member writer and the relation writer keep.
\<close>

type_synonym roomStateStore = "(string \<times> string \<times> string option) \<rightharpoonup> event"

record ('m, 'r) transaction =
  timelineFragments :: "fragment list"
  timelineEvents :: "storageEntry list"
  roomState :: roomStateStore
  roomMembers :: 'm
  relations :: 'r

text \<open>
  Modelled from the spec: \<open>timelineFragments.liveFragment(roomId)\<close>, which is not among
  the sources, is the fragment of the room whose \<open>nextId\<close> is null, if there is one.
\<close>

definition liveFragment :: "string \<Rightarrow> fragment list \<Rightarrow> fragment option" where
  "liveFragment r fs = find (\<lambda>f. f_roomId f = r \<and> nextId f = None) fs"

text \<open>
  Modelled from the spec: \<open>timelineFragments.get(roomId, fragmentId)\<close>, which is not
  among the sources, is the fragment of that room and id, if there is one.
\<close>

definition getFragment :: "string \<Rightarrow> int \<Rightarrow> fragment list \<Rightarrow> fragment option" where
  "getFragment r i fs = find (\<lambda>f. f_roomId f = r \<and> f_id f = i) fs"

text \<open>
  Modelled from the spec: \<open>timelineFragments.add(fragment)\<close>, which is not among the
  sources, adds the fragment to the store.
\<close>

definition addFragment :: "fragment \<Rightarrow> fragment list \<Rightarrow> fragment list" where
  "addFragment f fs = fs @ [f]"

text \<open>
  Modelled from the spec: \<open>timelineFragments.update(fragment)\<close>, which is not among the
  sources, replaces the stored fragment of the same room and id.
\<close>

definition updateFragment :: "fragment \<Rightarrow> fragment list \<Rightarrow> fragment list" where
  "updateFragment f fs =
     map (\<lambda>g. if f_roomId g = f_roomId f \<and> f_id g = f_id f then f else g) fs"

text \<open>
  Modelled from the spec: \<open>timelineEvents.lastEvents(roomId, fragmentId, n)\<close>, which is
  not among the sources, gives up to \<open>n\<close> stored entries of that room and fragment, the
  most recent (the greatest event index) first.
\<close>

definition lastEvents :: "string \<Rightarrow> int \<Rightarrow> nat \<Rightarrow> storageEntry list \<Rightarrow> storageEntry list" where
  "lastEvents r i n es =
     take n (rev (sort_key (\<lambda>e. eventIndex (s_key e))
       (filter (\<lambda>e. s_roomId e = r \<and> fragmentId (s_key e) = i) es)))"

text \<open>
  Modelled from the spec: \<open>timelineEvents.insert(entry)\<close>, which is not among the
  sources, adds the entry to the store.
\<close>

definition insertEvent :: "storageEntry \<Rightarrow> storageEntry list \<Rightarrow> storageEntry list" where
  "insertEvent e es = es @ [e]"

text \<open>
  Modelled from the spec: \<open>roomState.set(roomId, event)\<close>, which is not among the
  sources, stores the event under its type and state key, replacing an earlier one.
\<close>

definition setRoomState :: "string \<Rightarrow> event \<Rightarrow> roomStateStore \<Rightarrow> roomStateStore" where
  "setRoomState r e rs = rs((r, etype e, state_key e) \<mapsto> e)"

subsection \<open>deduplicateEvents\<close>

text \<open>
  \<open>events.filter\<close> with the set \<open>eventIds\<close> of the ids seen so far: the filter
  visits the events in order and the set grows as it goes.
\<close>

fun filterSeen :: "string set \<Rightarrow> event list \<Rightarrow> event list" where
  "filterSeen eventIds [] = []"
| "filterSeen eventIds (e # es) =
     (if event_id e \<in> eventIds then filterSeen eventIds es
      else e # filterSeen (insert (event_id e) eventIds) es)"

definition deduplicateEvents :: "event list \<Rightarrow> event list" where
  "deduplicateEvents es = filterSeen {} es"

subsection \<open>SyncWriter\<close>

text \<open>
  What a call can throw: the TypeError that JavaScript raises on reading a property of
  \<open>undefined\<close>, and the \<open>Error\<close> of \<open>_replaceLiveFragment\<close>, with the id of the
  fragment it did not find.
\<close>

datatype error =
  TypeError
| OldLiveFragmentMissing int

text \<open>
  The fields of the writer. \<open>fragmentIdComparer\<close> holds the comparer's state, since
  the writer is the one that changes it.
\<close>

record ('m, 'r) syncWriter =
  roomId :: string
  memberWriter :: "'m memberWriter"
  relationWriter :: "'r relationWriter"
  fragmentIdComparer :: "comparerOp list"
  lastLiveKey :: "EventKey option"

definition constructor ::
  "string \<Rightarrow> comparerOp list \<Rightarrow> 'm memberWriter \<Rightarrow> 'r relationWriter \<Rightarrow> ('m, 'r) syncWriter" where
  "constructor r cmp mw rw =
     \<lparr>roomId = r, memberWriter = mw, relationWriter = rw, fragmentIdComparer = cmp,
      lastLiveKey = None\<rparr>"

text \<open>
  \<open>load\<close> reads the store and sets \<open>lastLiveKey\<close> when the room has a live fragment.
\<close>

definition load :: "constants \<Rightarrow> ('m, 'r) syncWriter \<Rightarrow> ('m, 'r) transaction \<Rightarrow> ('m, 'r) syncWriter" where
  "load c w txn =
     (case liveFragment (roomId w) (timelineFragments txn) of
        Some lf \<Rightarrow>
          (let idx = (case lastEvents (roomId w) (f_id lf) 1 (timelineEvents txn) of
                        lastEvent # _ \<Rightarrow> eventIndex (s_key lastEvent)
                      | [] \<Rightarrow> eventIndex (defaultLiveKey c))
           in w\<lparr>lastLiveKey := Some \<lparr>fragmentId = f_id lf, eventIndex = idx\<rparr>\<rparr>)
      | None \<Rightarrow> w)"

text \<open>
  \<open>_createLiveFragment\<close>. \<open>!previousToken\<close> holds for a missing token and for the
  empty string; both become null.
\<close>

definition createLiveFragment ::
  "constants \<Rightarrow> string option \<Rightarrow> ('m, 'r) syncWriter \<Rightarrow> ('m, 'r) transaction
   \<Rightarrow> fragment \<times> ('m, 'r) syncWriter \<times> ('m, 'r) transaction" where
  "createLiveFragment c token w txn =
     (case liveFragment (roomId w) (timelineFragments txn) of
        None \<Rightarrow>
          (let previousToken' =
                 (case token of
                    None \<Rightarrow> None
                  | Some t \<Rightarrow> if t = [] then None else Some t);
               fragment =
                 \<lparr>f_roomId = roomId w, f_id = fragmentId (defaultLiveKey c),
                  previousId = None, nextId = None,
                  previousToken = previousToken', nextToken = None\<rparr>
           in (fragment,
               w\<lparr>fragmentIdComparer := fragmentIdComparer w @ [ComparerAdd fragment]\<rparr>,
               txn\<lparr>timelineFragments := addFragment fragment (timelineFragments txn)\<rparr>))
      | Some lf \<Rightarrow> (lf, w, txn))"

text \<open>
  \<open>_replaceLiveFragment\<close>. The old fragment object is changed in place before it is
  written back, so the fragment returned as \<open>oldFragment\<close> already has its new
  \<open>nextId\<close>.
\<close>

definition replaceLiveFragment ::
  "int \<Rightarrow> int \<Rightarrow> string option \<Rightarrow> ('m, 'r) syncWriter \<Rightarrow> ('m, 'r) transaction
   \<Rightarrow> (error + fragment \<times> fragment) \<times> ('m, 'r) syncWriter \<times> ('m, 'r) transaction" where
  "replaceLiveFragment oldFragmentId newFragmentId token w txn =
     (case getFragment (roomId w) oldFragmentId (timelineFragments txn) of
        None \<Rightarrow> (Inl (OldLiveFragmentMissing oldFragmentId), w, txn)
      | Some old \<Rightarrow>
          (let oldFragment = old\<lparr>nextId := Some newFragmentId\<rparr>;
               newFragment =
                 \<lparr>f_roomId = roomId w, f_id = newFragmentId,
                  previousId = Some oldFragmentId, nextId = None,
                  previousToken = token, nextToken = None\<rparr>
           in (Inr (oldFragment, newFragment),
               w\<lparr>fragmentIdComparer :=
                    fragmentIdComparer w @ [ComparerAppend newFragmentId oldFragmentId]\<rparr>,
               txn\<lparr>timelineFragments :=
                      addFragment newFragment
                        (updateFragment oldFragment (timelineFragments txn))\<rparr>)))"

text \<open>
  \<open>_ensureLiveFragment\<close>. \<open>entries\<close> is the array the boundary entries are pushed
  onto; it is returned with the new key.
\<close>

definition ensureLiveFragment ::
  "constants \<Rightarrow> EventKey option \<Rightarrow> entry list \<Rightarrow> timeline \<Rightarrow> ('m, 'r) syncWriter
   \<Rightarrow> ('m, 'r) transaction
   \<Rightarrow> (error + EventKey \<times> entry list) \<times> ('m, 'r) syncWriter \<times> ('m, 'r) transaction" where
  "ensureLiveFragment c currentKey entries tline w txn =
     (case currentKey of
        None \<Rightarrow>
          (case createLiveFragment c (prev_batch tline) w txn of
             (lf, w', txn') \<Rightarrow>
               (Inr (\<lparr>fragmentId = f_id lf,
                       eventIndex = eventIndex (defaultLiveKey c)\<rparr>,
                     entries @ [FragmentBoundaryStart lf]),
                w', txn'))
      | Some k \<Rightarrow>
          if limited tline then
            (let oldFragmentId = fragmentId k;
                 k' = nextFragmentKey c k
             in case replaceLiveFragment oldFragmentId (fragmentId k') (prev_batch tline) w txn of
                  (Inl e, w', txn') \<Rightarrow> (Inl e, w', txn')
                | (Inr (oldFragment, newFragment), w', txn') \<Rightarrow>
                    (Inr (k', entries @ [FragmentBoundaryEnd oldFragment,
                                        FragmentBoundaryStart newFragment]),
                     w', txn'))
          else (Inr (k, entries), w, txn))"

text \<open>\<open>_writeStateEvents\<close>: the loop over \<open>state.events\<close>, then the method.\<close>

type_synonym memberChanges = "string \<rightharpoonup> memberChange"

definition setMemberChange :: "memberChange option \<Rightarrow> memberChanges \<Rightarrow> memberChanges" where
  "setMemberChange mc changes =
     (case mc of None \<Rightarrow> changes | Some ch \<Rightarrow> changes(userId ch \<mapsto> ch))"

fun writeStateLoop ::
  "constants \<Rightarrow> ('m, 'r) syncWriter \<Rightarrow> bool option \<Rightarrow> event list
   \<Rightarrow> memberChanges \<times> ('m, 'r) transaction \<Rightarrow> memberChanges \<times> ('m, 'r) transaction" where
  "writeStateLoop c w isLimited [] st = st"
| "writeStateLoop c w isLimited (e # es) (changes, txn) =
     writeStateLoop c w isLimited es
       (if etype e = MEMBER_EVENT_TYPE c then
          (case writeStateMemberEvent (memberWriter w) e isLimited (roomMembers txn) of
             (mc, ms) \<Rightarrow> (setMemberChange mc changes, txn\<lparr>roomMembers := ms\<rparr>))
        else (changes, txn\<lparr>roomState := setRoomState (roomId w) e (roomState txn)\<rparr>))"

definition writeStateEvents ::
  "constants \<Rightarrow> roomResponse \<Rightarrow> memberChanges \<Rightarrow> bool option \<Rightarrow> ('m, 'r) syncWriter
   \<Rightarrow> ('m, 'r) transaction \<Rightarrow> memberChanges \<times> ('m, 'r) transaction" where
  "writeStateEvents c roomResponse changes isLimited w txn =
     (case state roomResponse of
        None \<Rightarrow> (changes, txn)
      | Some es \<Rightarrow> writeStateLoop c w isLimited es (changes, txn))"

text \<open>
  The body of the loop of \<open>_writeTimeline\<close>, for one event. The loop's variables are
  the current key, the entries pushed so far, the entries the relation writer reported,
  the member changes and the transaction. \<open>batch\<close> is the deduplicated event list,
  which \<open>lookupMember\<close> receives whole at every event.
\<close>

type_synonym ('m, 'r) loopState =
  "EventKey \<times> entry list \<times> entry list \<times> memberChanges \<times> ('m, 'r) transaction"

definition writeEvent ::
  "constants \<Rightarrow> ('m, 'r) syncWriter \<Rightarrow> event list \<Rightarrow> event \<Rightarrow> ('m, 'r) loopState
   \<Rightarrow> ('m, 'r) loopState" where
  "writeEvent c w batch ev st =
     (case st of (currentKey, pushed, updated, changes, txn) \<Rightarrow>
        (let currentKey' = nextKey currentKey;
             created = createEventEntry currentKey' (roomId w) ev
         in case lookupMember (memberWriter w) (sender ev) ev batch (roomMembers txn) of
              (found, ms) \<Rightarrow>
                (let storageEntry =
                       (case found of
                          None \<Rightarrow> created
                        | Some m \<Rightarrow> created\<lparr>displayName := m_displayName m,
                                             avatarUrl := m_avatarUrl m\<rparr>);
                     txn1 = txn\<lparr>roomMembers := ms,
                                timelineEvents := insertEvent storageEntry (timelineEvents txn)\<rparr>;
                     entry = EventEntry storageEntry;
                     pushed' = pushed @ [entry]
                 in case writeRelation (relationWriter w) entry (relations txn1) of
                      (targets, rs) \<Rightarrow>
                        (let updated' =
                               (case targets of None \<Rightarrow> updated | Some us \<Rightarrow> updated @ us);
                             txn2 = txn1\<lparr>relations := rs\<rparr>
                         in if state_key ev \<noteq> None then
                              (if etype ev = MEMBER_EVENT_TYPE c then
                                 (case writeTimelineMemberEvent (memberWriter w) ev
                                         (roomMembers txn2) of
                                    (mc, ms') \<Rightarrow>
                                      (currentKey', pushed', updated',
                                       setMemberChange mc changes,
                                       txn2\<lparr>roomMembers := ms'\<rparr>))
                               else
                                 (currentKey', pushed', updated', changes,
                                  txn2\<lparr>roomState :=
                                          setRoomState (roomId w) ev (roomState txn2)\<rparr>))
                            else (currentKey', pushed', updated', changes, txn2)))))"

fun writeEvents ::
  "constants \<Rightarrow> ('m, 'r) syncWriter \<Rightarrow> event list \<Rightarrow> event list \<Rightarrow> ('m, 'r) loopState
   \<Rightarrow> ('m, 'r) loopState" where
  "writeEvents c w batch [] st = st"
| "writeEvents c w batch (ev # evs) st = writeEvents c w batch evs (writeEvent c w batch ev st)"

text \<open>
  \<open>_writeTimeline\<close>. Nothing is written unless \<open>timeline?.events\<close> is an array
  with at least one element; the key handed back is then the key handed in.
\<close>

definition writeTimeline ::
  "constants \<Rightarrow> timeline option \<Rightarrow> EventKey option \<Rightarrow> memberChanges \<Rightarrow> ('m, 'r) syncWriter
   \<Rightarrow> ('m, 'r) transaction
   \<Rightarrow> (error + EventKey option \<times> entry list \<times> entry list \<times> memberChanges)
      \<times> ('m, 'r) syncWriter \<times> ('m, 'r) transaction" where
  "writeTimeline c tlo currentKey changes w txn =
     (case (case tlo of
              None \<Rightarrow> None
            | Some tline \<Rightarrow>
                (case events tline of
                   None \<Rightarrow> None
                 | Some evs \<Rightarrow> if evs = [] then None else Some (tline, evs))) of
        None \<Rightarrow> (Inr (currentKey, [], [], changes), w, txn)
      | Some (tline, evs) \<Rightarrow>
          (case ensureLiveFragment c currentKey [] tline w txn of
             (Inl e, w', txn') \<Rightarrow> (Inl e, w', txn')
           | (Inr (k, pushed), w', txn') \<Rightarrow>
               (let batch = deduplicateEvents evs
                in case writeEvents c w' batch batch (k, pushed, [], changes, txn') of
                     (k', pushed', updated, changes', txn'') \<Rightarrow>
                       (Inr (Some k', pushed', updated, changes'), w', txn''))))"

text \<open>
  \<open>events.findIndex\<close>: the index of the first element that satisfies the test,
  \<open>-1\<close> when there is none.
\<close>

fun findIndex :: "('a \<Rightarrow> bool) \<Rightarrow> 'a list \<Rightarrow> int" where
  "findIndex P [] = - 1"
| "findIndex P (x # xs) =
     (if P x then 0 else (let i = findIndex P xs in if i = - 1 then - 1 else i + 1))"

text \<open>
  \<open>_handleRejoinOverlap\<close>. The timeline is read without a guard: destructuring
  \<open>events\<close> out of a missing timeline, calling \<open>findIndex\<close> on a missing event
  list and reading \<open>limited\<close> of a missing timeline each raise a TypeError.
\<close>

definition handleRejoinOverlap ::
  "timeline option \<Rightarrow> ('m, 'r) syncWriter \<Rightarrow> ('m, 'r) transaction \<Rightarrow> error + timeline" where
  "handleRejoinOverlap tlo w txn =
     (let forceLimited =
            (case tlo of
               None \<Rightarrow> Inl TypeError
             | Some tline \<Rightarrow>
                 if \<not> limited tline then Inr (tline\<lparr>limited := True\<rparr>) else Inr tline)
      in case lastLiveKey w of
           None \<Rightarrow> forceLimited
         | Some k \<Rightarrow>
             (case lastEvents (roomId w) (fragmentId k) 1 (timelineEvents txn) of
                [] \<Rightarrow> forceLimited
              | lastEvent # _ \<Rightarrow>
                  (case tlo of
                     None \<Rightarrow> Inl TypeError
                   | Some tline \<Rightarrow>
                       (case events tline of
                          None \<Rightarrow> Inl TypeError
                        | Some evs \<Rightarrow>
                            (let lastEventId = event_id (s_event lastEvent);
                                 index = findIndex (\<lambda>e. event_id e = lastEventId) evs
                             in if index \<noteq> - 1 then
                                  Inr (tline\<lparr>limited := False,
                                             events := Some (drop (nat (index + 1)) evs)\<rparr>)
                                else forceLimited)))))"

text \<open>\<open>writeSync\<close>, \<open>afterSync\<close> and the getter \<open>lastMessageKey\<close>.\<close>

record syncWriterResult =
  entries :: "entry list"
  updatedEntries :: "entry list"
  newLiveKey :: "EventKey option"
  memberChanges :: memberChanges

definition writeSync ::
  "constants \<Rightarrow> roomResponse \<Rightarrow> bool \<Rightarrow> ('m, 'r) syncWriter \<Rightarrow> ('m, 'r) transaction
   \<Rightarrow> (error + syncWriterResult) \<times> ('m, 'r) syncWriter \<times> ('m, 'r) transaction" where
  "writeSync c roomResponse isRejoin w txn =
     (case (if isRejoin then map_sum id Some (handleRejoinOverlap (timeline roomResponse) w txn)
            else Inr (timeline roomResponse)) of
        Inl e \<Rightarrow> (Inl e, w, txn)
      | Inr tlo \<Rightarrow>
          (case writeStateEvents c roomResponse Map.empty (map_option limited tlo) w txn of
             (changes, txn1) \<Rightarrow>
               (case writeTimeline c tlo (lastLiveKey w) changes w txn1 of
                  (Inl e, w', txn') \<Rightarrow> (Inl e, w', txn')
                | (Inr (k, pushed, updated, changes'), w', txn') \<Rightarrow>
                    (Inr \<lparr>entries = pushed, updatedEntries = updated, newLiveKey = k,
                          memberChanges = changes'\<rparr>,
                     w', txn'))))"

definition afterSync :: "EventKey option \<Rightarrow> ('m, 'r) syncWriter \<Rightarrow> ('m, 'r) syncWriter" where
  "afterSync k w = w\<lparr>lastLiveKey := k\<rparr>"

definition lastMessageKey :: "('m, 'r) syncWriter \<Rightarrow> EventKey option" where
  "lastMessageKey w = lastLiveKey w"

section \<open>Notions used in the statements\<close>

text \<open>
  \<open>keysFrom k n\<close> are the \<open>n\<close> keys that follow \<open>k\<close> under \<open>nextKey\<close>;
  \<open>eventEntries\<close> are the storage entries of the event entries of a list of
  entries, in order; \<open>rejoinAdjusted\<close> is the timeline that \<open>writeSync\<close> goes on
  to write: the response's timeline, passed through \<open>_handleRejoinOverlap\<close> when
  \<open>isRejoin\<close> is set.
\<close>

fun keysFrom :: "EventKey \<Rightarrow> nat \<Rightarrow> EventKey list" where
  "keysFrom k 0 = []"
| "keysFrom k (Suc n) = nextKey k # keysFrom (nextKey k) n"

fun eventEntries :: "entry list \<Rightarrow> storageEntry list" where
  "eventEntries [] = []"
| "eventEntries (EventEntry se # es) = se # eventEntries es"
| "eventEntries (FragmentBoundaryStart f # es) = eventEntries es"
| "eventEntries (FragmentBoundaryEnd f # es) = eventEntries es"

definition rejoinAdjusted ::
  "roomResponse \<Rightarrow> bool \<Rightarrow> ('m, 'r) syncWriter \<Rightarrow> ('m, 'r) transaction \<Rightarrow> error + timeline option" where
  "rejoinAdjusted roomResponse isRejoin w txn =
     (if isRejoin then map_sum id Some (handleRejoinOverlap (timeline roomResponse) w txn)
      else Inr (timeline roomResponse))"

text \<open>
  \<open>liveCount r fs\<close> counts the fragments of room \<open>r\<close> without \<open>nextId\<close>.
  \<open>pushedEntries\<close> reads the entries pushed so far off the loop's variables, and
  \<open>entryFor\<close> is the entry the loop body builds for an event in a given state of those
  variables: the key after the current one, and the profile that \<open>lookupMember\<close> finds
  on the member state of that moment.
\<close>

definition liveCount :: "string \<Rightarrow> fragment list \<Rightarrow> nat" where
  "liveCount r fs = length (filter (\<lambda>f. f_roomId f = r \<and> nextId f = None) fs)"



section \<open>Concrete inputs\<close>

text \<open>
  A room, member writers and a relation writer on which the statements below are
  evaluated. \<open>storedProfiles\<close> keeps the profiles it was told about and looks a sender
  up among them; \<open>batchProfiles\<close> falls back, for an unknown sender, on the member
  events of the batch it is handed; \<open>forgetful ev\<close> is \<open>storedProfiles\<close> with a
  timeline path that ignores the event \<open>ev\<close>. \<open>noRelations\<close> reports nothing.
\<close>

type_synonym profiles = "(string \<times> member) list"

definition exampleConstants :: constants where
  "exampleConstants =
     \<lparr>defaultLiveKey = \<lparr>fragmentId = 0, eventIndex = 0\<rparr>, fragmentStartIndex = 0,
      MEMBER_EVENT_TYPE = ''m.room.member''\<rparr>"

definition profileOf :: "event \<Rightarrow> member" where
  "profileOf e = \<lparr>m_displayName = Some (content e), m_avatarUrl = None\<rparr>"

definition recordProfile :: "event \<Rightarrow> profiles \<Rightarrow> memberChange option \<times> profiles" where
  "recordProfile e ps =
     (case state_key e of
        None \<Rightarrow> (None, ps)
      | Some u \<Rightarrow> (Some \<lparr>userId = u, change = profileOf e\<rparr>, (u, profileOf e) # ps))"

definition storedProfiles :: "profiles memberWriter" where
  "storedProfiles =
     \<lparr>lookupMember = (\<lambda>s e batch ps. (map_of ps s, ps)),
      writeStateMemberEvent = (\<lambda>e l ps. recordProfile e ps),
      writeTimelineMemberEvent = (\<lambda>e ps. recordProfile e ps)\<rparr>"


definition noRelations :: "unit relationWriter" where
  "noRelations = \<lparr>writeRelation = (\<lambda>e r. (None, r))\<rparr>"

definition exampleWriter :: "profiles memberWriter \<Rightarrow> EventKey option \<Rightarrow> (profiles, unit) syncWriter" where
  "exampleWriter mw k = (constructor ''!room'' [] mw noRelations)\<lparr>lastLiveKey := k\<rparr>"

definition exampleTxn :: "fragment list \<Rightarrow> storageEntry list \<Rightarrow> (profiles, unit) transaction" where
  "exampleTxn fs es =
     \<lparr>timelineFragments = fs, timelineEvents = es, roomState = Map.empty,
      roomMembers = [], relations = ()\<rparr>"

definition message :: "string \<Rightarrow> string \<Rightarrow> event" where
  "message i s = \<lparr>event_id = i, etype = ''m.room.message'', sender = s, state_key = None, content = ''hello''\<rparr>"

definition memberEvent :: "string \<Rightarrow> string \<Rightarrow> string \<Rightarrow> event" where
  "memberEvent i u name = \<lparr>event_id = i, etype = ''m.room.member'', sender = u, state_key = Some u, content = name\<rparr>"

definition exampleFragment :: "int \<Rightarrow> int option \<Rightarrow> int option \<Rightarrow> fragment" where
  "exampleFragment i p n =
     \<lparr>f_roomId = ''!room'', f_id = i, previousId = p, nextId = n, previousToken = None, nextToken = None\<rparr>"

definition response :: "event list \<Rightarrow> bool \<Rightarrow> roomResponse" where
  "response es l = \<lparr>state = None, timeline = Some \<lparr>events = Some es, limited = l, prev_batch = Some ''t1''\<rparr>\<rparr>"

definition duplicateBatch :: "event list" where
  "duplicateBatch = [message ''a'' ''@alice'', message ''a'' ''@alice'', memberEvent ''b'' ''@alice'' ''Al'']"

definition storedEntry :: "int \<Rightarrow> int \<Rightarrow> event \<Rightarrow> storageEntry" where
  "storedEntry f i e = createEventEntry \<lparr>fragmentId = f, eventIndex = i\<rparr> ''!room'' e"

definition overlapBatch :: "event list" where
  "overlapBatch = [message ''e'' ''@alice'', message ''x'' ''@bob'', message ''y'' ''@alice'']"

definition keyedWriter :: "(profiles, unit) syncWriter" where
  "keyedWriter = exampleWriter storedProfiles (Some \<lparr>fragmentId = 0, eventIndex = 5\<rparr>)"

definition movedOnTxn :: "(profiles, unit) transaction" where
  "movedOnTxn = exampleTxn [exampleFragment 0 None (Some 2), exampleFragment 2 (Some 0) None] []"




section \<open>Auxiliary facts\<close>

lemmas writer_defs =
  writeSync_def rejoinAdjusted_def handleRejoinOverlap_def writeStateEvents_def writeTimeline_def
  ensureLiveFragment_def createLiveFragment_def replaceLiveFragment_def writeEvent_def
  liveFragment_def getFragment_def addFragment_def updateFragment_def lastEvents_def
  insertEvent_def setRoomState_def setMemberChange_def createEventEntry_def
  deduplicateEvents_def nextKey_def nextFragmentKey_def constructor_def afterSync_def

lemmas example_defs =
  exampleConstants_def profileOf_def recordProfile_def storedProfiles_def
  noRelations_def exampleWriter_def exampleTxn_def message_def memberEvent_def
  exampleFragment_def response_def storedEntry_def

lemma filterSeen_ids_notin: "e \<in> set (filterSeen S es) \<Longrightarrow> event_id e \<notin> S"
  by (induction es arbitrary: S) (auto split: if_splits)

lemma filterSeen_distinct: "distinct (map event_id (filterSeen S es))"
  by (induction es arbitrary: S) (auto dest: filterSeen_ids_notin)

lemma filterSeen_ids: "event_id ` set (filterSeen S es) = event_id ` set es - S"
  by (induction es arbitrary: S) auto

lemma filterSeen_index:
  "filterSeen S es =
     map ((!) es) (filter (\<lambda>i. event_id (es ! i) \<notin> S \<union> event_id ` set (take i es)) [0..<length es])"
proof (induction es arbitrary: S)
  case Nil
  then show ?case by simp
next
  case (Cons e es)
  have upt: "[0..<length (e # es)] = 0 # map Suc [0..<length es]"
    by (simp add: upt_conv_Cons map_Suc_upt del: upt_Suc)
  show ?case
    unfolding upt
    by (auto simp add: Cons.IH filter_map comp_def intro!: arg_cong[where f="map ((!) es)"] filter_cong)
qed

lemma keysFrom_fragmentId: "k' \<in> set (keysFrom k n) \<Longrightarrow> fragmentId k' = fragmentId k"
  by (induction n arbitrary: k) (auto simp: nextKey_def)

lemma keysFrom_above: "k' \<in> set (keysFrom k n) \<Longrightarrow> EventKey_less k k'"
  by (induction n arbitrary: k) (fastforce simp: nextKey_def EventKey_less_def)+

lemma keysFrom_sorted: "sorted_wrt EventKey_less (keysFrom k n)"
  by (induction n arbitrary: k) (auto dest: keysFrom_above)

lemma writeEvent_shape:
  assumes "writeEvent c w batch ev (k, pushed, upd, ch, txn) = (k', pushed', upd', ch', txn')"
  shows "k' = nextKey k
       \<and> (\<exists>se. pushed' = pushed @ [EventEntry se]
              \<and> timelineEvents txn' = timelineEvents txn @ [se]
              \<and> s_event se = ev \<and> s_key se = nextKey k \<and> s_roomId se = roomId w)
       \<and> timelineFragments txn' = timelineFragments txn"
  using assms
  by (auto simp: writeEvent_def Let_def createEventEntry_def insertEvent_def
           split: prod.splits option.splits if_splits)

lemma writeEvents_shape:
  assumes "writeEvents c w batch evs (k, pushed, upd, ch, txn) = (k', pushed', upd', ch', txn')"
  shows "k' = (nextKey ^^ length evs) k
       \<and> (\<exists>ses. pushed' = pushed @ map EventEntry ses
              \<and> timelineEvents txn' = timelineEvents txn @ ses
              \<and> map s_event ses = evs
              \<and> map s_key ses = keysFrom k (length evs)
              \<and> (\<forall>se \<in> set ses. s_roomId se = roomId w))
       \<and> timelineFragments txn' = timelineFragments txn"
  using assms
proof (induction evs arbitrary: k pushed upd ch txn)
  case Nil
  then show ?case by simp
next
  case (Cons ev evs)
  obtain k1 pushed1 upd1 ch1 txn1 where
    step: "writeEvent c w batch ev (k, pushed, upd, ch, txn) = (k1, pushed1, upd1, ch1, txn1)"
    by (metis prod_cases5)
  from writeEvent_shape[OF step] obtain se where
    k1: "k1 = nextKey k" and p1: "pushed1 = pushed @ [EventEntry se]"
    and t1: "timelineEvents txn1 = timelineEvents txn @ [se]"
    and se: "s_event se = ev" "s_key se = nextKey k" "s_roomId se = roomId w"
    and f1: "timelineFragments txn1 = timelineFragments txn"
    by blast
  from Cons.prems step have
    rest: "writeEvents c w batch evs (k1, pushed1, upd1, ch1, txn1) = (k', pushed', upd', ch', txn')"
    by simp
  from Cons.IH[OF rest] obtain ses where
    k': "k' = (nextKey ^^ length evs) k1" and p': "pushed' = pushed1 @ map EventEntry ses"
    and t': "timelineEvents txn' = timelineEvents txn1 @ ses"
    and ses: "map s_event ses = evs" "map s_key ses = keysFrom k1 (length evs)"
             "\<forall>se \<in> set ses. s_roomId se = roomId w"
    and f': "timelineFragments txn' = timelineFragments txn1"
    by blast
  have "pushed' = pushed @ map EventEntry (se # ses)"
       "timelineEvents txn' = timelineEvents txn @ (se # ses)"
       "map s_event (se # ses) = ev # evs"
       "map s_key (se # ses) = keysFrom k (length (ev # evs))"
       "\<forall>x \<in> set (se # ses). s_roomId x = roomId w"
    using p' p1 t' t1 ses se k1 by simp_all
  moreover have "k' = (nextKey ^^ length (ev # evs)) k"
    using k' k1 by (simp add: funpow_swap1)
  moreover have "timelineFragments txn' = timelineFragments txn"
    using f' f1 by simp
  ultimately show ?case by - (intro conjI exI[of _ "se # ses"], assumption+)
qed


lemma eventEntries_append: "eventEntries (xs @ ys) = eventEntries xs @ eventEntries ys"
  by (induction xs rule: eventEntries.induct) auto

lemma eventEntries_map: "eventEntries (map EventEntry ses) = ses"
  by (induction ses) auto

lemma writeStateLoop_frame:
  "writeStateLoop c w l es st = st' \<Longrightarrow>
     timelineFragments (snd st') = timelineFragments (snd st)
   \<and> timelineEvents (snd st') = timelineEvents (snd st)"
proof (induction es arbitrary: st)
  case Nil
  then show ?case by simp
next
  case (Cons e es)
  obtain ch txn where st: "st = (ch, txn)" by (cases st)
  show ?case
    using Cons.prems Cons.IH unfolding st
    by (auto split: if_splits prod.splits)
qed

lemma writeStateEvents_frame:
  "writeStateEvents c rr ch l w txn = (ch', txn') \<Longrightarrow>
     timelineFragments txn' = timelineFragments txn \<and> timelineEvents txn' = timelineEvents txn"
  using writeStateLoop_frame[of c w l _ "(ch, txn)" "(ch', txn')"]
  by (auto simp: writeStateEvents_def split: option.splits)

lemma writeTimeline_nothing:
  assumes "tlo = None \<or> (\<exists>t. tlo = Some t \<and> (events t = None \<or> events t = Some []))"
  shows "writeTimeline c tlo key ch w txn = (Inr (key, [], [], ch), w, txn)"
  using assms by (auto simp: writeTimeline_def)

lemma writeTimeline_failed:
  assumes "events tline = Some evs" and "evs \<noteq> []"
    and "ensureLiveFragment c key [] tline w txn = (Inl e, w1, txn1)"
  shows "writeTimeline c (Some tline) key ch w txn = (Inl e, w1, txn1)"
  using assms by (simp add: writeTimeline_def)

lemma writeTimeline_written:
  assumes "events tline = Some evs" and "evs \<noteq> []"
    and "ensureLiveFragment c key [] tline w txn = (Inr (k, pushed), w1, txn1)"
  shows "\<exists>ses upd ch' txn2.
           writeTimeline c (Some tline) key ch w txn =
             (Inr (Some ((nextKey ^^ length (deduplicateEvents evs)) k),
                   pushed @ map EventEntry ses, upd, ch'), w1, txn2)
         \<and> timelineFragments txn2 = timelineFragments txn1
         \<and> timelineEvents txn2 = timelineEvents txn1 @ ses
         \<and> map s_event ses = deduplicateEvents evs
         \<and> map s_key ses = keysFrom k (length (deduplicateEvents evs))
         \<and> (\<forall>se \<in> set ses. s_roomId se = roomId w1)"
proof -
  let ?batch = "deduplicateEvents evs"
  obtain k' pushed' upd ch' txn2 where
    loop: "writeEvents c w1 ?batch ?batch (k, pushed, [], ch, txn1) = (k', pushed', upd, ch', txn2)"
    by (metis prod_cases5)
  from writeEvents_shape[OF loop] obtain ses where
    "k' = (nextKey ^^ length ?batch) k" "pushed' = pushed @ map EventEntry ses"
    "timelineEvents txn2 = timelineEvents txn1 @ ses" "map s_event ses = ?batch"
    "map s_key ses = keysFrom k (length ?batch)" "\<forall>se \<in> set ses. s_roomId se = roomId w1"
    "timelineFragments txn2 = timelineFragments txn1"
    by blast
  moreover have "writeTimeline c (Some tline) key ch w txn = (Inr (Some k', pushed', upd, ch'), w1, txn2)"
    using assms loop by (simp add: writeTimeline_def Let_def)
  ultimately show ?thesis by simp
qed

lemma writeSync_unfold:
  assumes "rejoinAdjusted rr isRejoin w txn = Inr tlo"
  shows "\<exists>ch txn1. timelineFragments txn1 = timelineFragments txn
           \<and> timelineEvents txn1 = timelineEvents txn
           \<and> writeSync c rr isRejoin w txn =
               (case writeTimeline c tlo (lastLiveKey w) ch w txn1 of
                  (Inl e, w', txn') \<Rightarrow> (Inl e, w', txn')
                | (Inr (k, pushed, updated, changes'), w', txn') \<Rightarrow>
                    (Inr \<lparr>entries = pushed, updatedEntries = updated, newLiveKey = k,
                          memberChanges = changes'\<rparr>, w', txn'))"
proof -
  obtain ch txn1 where
    st: "writeStateEvents c rr Map.empty (map_option limited tlo) w txn = (ch, txn1)"
    by (cases "writeStateEvents c rr Map.empty (map_option limited tlo) w txn")
  from writeStateEvents_frame[OF st] have
    "timelineFragments txn1 = timelineFragments txn" "timelineEvents txn1 = timelineEvents txn"
    by simp_all
  moreover have "writeSync c rr isRejoin w txn =
               (case writeTimeline c tlo (lastLiveKey w) ch w txn1 of
                  (Inl e, w', txn') \<Rightarrow> (Inl e, w', txn')
                | (Inr (k, pushed, updated, changes'), w', txn') \<Rightarrow>
                    (Inr \<lparr>entries = pushed, updatedEntries = updated, newLiveKey = k,
                          memberChanges = changes'\<rparr>, w', txn'))"
    using assms st unfolding writeSync_def rejoinAdjusted_def by simp
  ultimately show ?thesis by blast
qed


lemma ensureLiveFragment_frame:
  assumes "ensureLiveFragment c key [] tline w txn = (r, w1, txn1)"
  shows "timelineEvents txn1 = timelineEvents txn \<and> lastLiveKey w1 = lastLiveKey w
       \<and> roomId w1 = roomId w
       \<and> (case r of Inl e \<Rightarrow> True | Inr (k, pushed) \<Rightarrow> eventEntries pushed = [])"
  using assms
  by (auto simp: ensureLiveFragment_def createLiveFragment_def replaceLiveFragment_def Let_def
           split: option.splits if_splits prod.splits sum.splits)

lemma ensureLiveFragment_fragments_cong:
  assumes "timelineFragments txn0 = timelineFragments txn"
    and "ensureLiveFragment c key es tline w txn0 = (r, w1, txn1)"
  shows "\<exists>txn2. ensureLiveFragment c key es tline w txn = (r, w1, txn2)
           \<and> timelineFragments txn2 = timelineFragments txn1"
  using assms
  by (auto simp: ensureLiveFragment_def createLiveFragment_def replaceLiveFragment_def Let_def
           split: option.splits if_splits prod.splits sum.splits)

lemma writeSync_success_shape:
  assumes adj: "rejoinAdjusted rr isRejoin w txn = Inr (Some tline)"
    and evs: "events tline = Some evs" "evs \<noteq> []"
    and ok: "writeSync c rr isRejoin w txn = (Inr res, w', txn')"
  shows "\<exists>k pushed txn1 ses.
           ensureLiveFragment c (lastLiveKey w) [] tline w txn = (Inr (k, pushed), w', txn1)
         \<and> entries res = pushed @ map EventEntry ses
         \<and> newLiveKey res = Some ((nextKey ^^ length (deduplicateEvents evs)) k)
         \<and> timelineFragments txn' = timelineFragments txn1
         \<and> timelineEvents txn' = timelineEvents txn @ ses
         \<and> map s_event ses = deduplicateEvents evs
         \<and> map s_key ses = keysFrom k (length (deduplicateEvents evs))
         \<and> (\<forall>se \<in> set ses. s_roomId se = roomId w)"
proof -
  from writeSync_unfold[OF adj, of c] obtain ch txn0 where
    f0: "timelineFragments txn0 = timelineFragments txn"
    and e0: "timelineEvents txn0 = timelineEvents txn"
    and ws: "writeSync c rr isRejoin w txn =
               (case writeTimeline c (Some tline) (lastLiveKey w) ch w txn0 of
                  (Inl e, w', txn') \<Rightarrow> (Inl e, w', txn')
                | (Inr (k, pushed, updated, changes'), w', txn') \<Rightarrow>
                    (Inr \<lparr>entries = pushed, updatedEntries = updated, newLiveKey = k,
                          memberChanges = changes'\<rparr>, w', txn'))"
    by blast
  obtain r w1 txn1 where
    en: "ensureLiveFragment c (lastLiveKey w) [] tline w txn0 = (r, w1, txn1)"
    by (metis prod_cases3)
  show ?thesis
  proof (cases r)
    case (Inl e)
    with writeTimeline_failed[OF evs, of c "lastLiveKey w" w txn0 e w1 txn1 ch] en ws ok
    show ?thesis by simp
  next
    case (Inr kp)
    obtain k pushed where kp: "kp = (k, pushed)" by (cases kp)
    from en Inr kp have en': "ensureLiveFragment c (lastLiveKey w) [] tline w txn0 = (Inr (k, pushed), w1, txn1)"
      by simp
    from writeTimeline_written[OF evs en', of ch] obtain ses upd ch' txn2 where
      wt: "writeTimeline c (Some tline) (lastLiveKey w) ch w txn0 =
             (Inr (Some ((nextKey ^^ length (deduplicateEvents evs)) k),
                   pushed @ map EventEntry ses, upd, ch'), w1, txn2)"
      and f2: "timelineFragments txn2 = timelineFragments txn1"
      and e2: "timelineEvents txn2 = timelineEvents txn1 @ ses"
      and ses: "map s_event ses = deduplicateEvents evs"
               "map s_key ses = keysFrom k (length (deduplicateEvents evs))"
               "\<forall>se \<in> set ses. s_roomId se = roomId w1"
      by blast
    from ws wt ok have res: "entries res = pushed @ map EventEntry ses"
      "newLiveKey res = Some ((nextKey ^^ length (deduplicateEvents evs)) k)"
      "w' = w1" "txn' = txn2"
      by auto
    from ensureLiveFragment_frame[OF en'] have fr: "timelineEvents txn1 = timelineEvents txn0" "roomId w1 = roomId w"
      by simp_all
    from ensureLiveFragment_fragments_cong[OF f0 en'] obtain txn3 where
      en3: "ensureLiveFragment c (lastLiveKey w) [] tline w txn = (Inr (k, pushed), w1, txn3)"
      and f3: "timelineFragments txn3 = timelineFragments txn1"
      by blast
    have "ensureLiveFragment c (lastLiveKey w) [] tline w txn = (Inr (k, pushed), w', txn3)"
      "entries res = pushed @ map EventEntry ses"
      "newLiveKey res = Some ((nextKey ^^ length (deduplicateEvents evs)) k)"
      "timelineFragments txn' = timelineFragments txn3"
      "timelineEvents txn' = timelineEvents txn @ ses"
      "map s_event ses = deduplicateEvents evs"
      "map s_key ses = keysFrom k (length (deduplicateEvents evs))"
      "\<forall>se \<in> set ses. s_roomId se = roomId w"
      using en3 res f2 f3 e2 fr e0 ses by simp_all
    then show ?thesis by - (intro exI conjI, assumption+)
  qed
qed

lemma writeSync_nothing:
  assumes adj: "rejoinAdjusted rr isRejoin w txn = Inr tlo"
    and none: "tlo = None \<or> (\<exists>t. tlo = Some t \<and> (events t = None \<or> events t = Some []))"
  shows "\<exists>res txn'. writeSync c rr isRejoin w txn = (Inr res, w, txn')
         \<and> entries res = [] \<and> updatedEntries res = [] \<and> newLiveKey res = lastLiveKey w
         \<and> timelineFragments txn' = timelineFragments txn
         \<and> timelineEvents txn' = timelineEvents txn"
proof -
  from writeSync_unfold[OF adj, of c] obtain ch txn0 where
    f0: "timelineFragments txn0 = timelineFragments txn"
    and e0: "timelineEvents txn0 = timelineEvents txn"
    and ws: "writeSync c rr isRejoin w txn =
               (case writeTimeline c tlo (lastLiveKey w) ch w txn0 of
                  (Inl e, w', txn') \<Rightarrow> (Inl e, w', txn')
                | (Inr (k, pushed, updated, changes'), w', txn') \<Rightarrow>
                    (Inr \<lparr>entries = pushed, updatedEntries = updated, newLiveKey = k,
                          memberChanges = changes'\<rparr>, w', txn'))"
    by blast
  show ?thesis
    using ws f0 e0 by (simp add: writeTimeline_nothing[OF none])
qed

lemma eventEntries_of_written:
  assumes "es = pushed @ map EventEntry ses" and "eventEntries pushed = []"
  shows "eventEntries es = ses"
  using assms by (simp add: eventEntries_append eventEntries_map)

lemma writeTimeline_lastLiveKey:
  assumes "writeTimeline c tlo key ch w txn = (r, w', txn')"
  shows "lastLiveKey w' = lastLiveKey w"
proof (cases "tlo = None \<or> (\<exists>t. tlo = Some t \<and> (events t = None \<or> events t = Some []))")
  case True
  from writeTimeline_nothing[OF True, of c key ch w txn] assms show ?thesis by simp
next
  case False
  then obtain tline evs where tl: "tlo = Some tline" "events tline = Some evs" "evs \<noteq> []"
    by auto
  obtain r1 w1 txn1 where en: "ensureLiveFragment c key [] tline w txn = (r1, w1, txn1)"
    by (metis prod_cases3)
  from ensureLiveFragment_frame[OF en] have keep: "lastLiveKey w1 = lastLiveKey w" by simp
  show ?thesis
  proof (cases r1)
    case (Inl e)
    with writeTimeline_failed[OF tl(2,3), of c key w txn e w1 txn1 ch] en assms tl keep
    show ?thesis by simp
  next
    case (Inr kp)
    obtain k pushed where "kp = (k, pushed)" by (cases kp)
    with en Inr have "ensureLiveFragment c key [] tline w txn = (Inr (k, pushed), w1, txn1)"
      by simp
    from writeTimeline_written[OF tl(2,3) this, of ch] assms tl keep show ?thesis by auto
  qed
qed

lemma ensureLiveFragment_keep:
  assumes "\<not> limited tline"
  shows "ensureLiveFragment c (Some k) es tline w txn = (Inr (k, es), w, txn)"
  using assms by (simp add: ensureLiveFragment_def)

lemma ensureLiveFragment_missing:
  assumes "limited tline" and "getFragment (roomId w) (fragmentId k) (timelineFragments txn) = None"
  shows "ensureLiveFragment c (Some k) es tline w txn =
           (Inl (OldLiveFragmentMissing (fragmentId k)), w, txn)"
  using assms by (simp add: ensureLiveFragment_def replaceLiveFragment_def Let_def)

lemma ensureLiveFragment_replace:
  assumes "limited tline" and "getFragment (roomId w) (fragmentId k) (timelineFragments txn) = Some old"
  shows "ensureLiveFragment c (Some k) es tline w txn =
           (Inr (nextFragmentKey c k,
                 es @ [FragmentBoundaryEnd (old\<lparr>nextId := Some (fragmentId (nextFragmentKey c k))\<rparr>),
                       FragmentBoundaryStart
                         \<lparr>f_roomId = roomId w, f_id = fragmentId (nextFragmentKey c k),
                          previousId = Some (fragmentId k), nextId = None,
                          previousToken = prev_batch tline, nextToken = None\<rparr>]),
            w\<lparr>fragmentIdComparer :=
                 fragmentIdComparer w @
                   [ComparerAppend (fragmentId (nextFragmentKey c k)) (fragmentId k)]\<rparr>,
            txn\<lparr>timelineFragments :=
                   updateFragment (old\<lparr>nextId := Some (fragmentId (nextFragmentKey c k))\<rparr>)
                     (timelineFragments txn) @
                   [\<lparr>f_roomId = roomId w, f_id = fragmentId (nextFragmentKey c k),
                     previousId = Some (fragmentId k), nextId = None,
                     previousToken = prev_batch tline, nextToken = None\<rparr>]\<rparr>)"
  using assms by (simp add: ensureLiveFragment_def replaceLiveFragment_def addFragment_def Let_def)

lemma ensureLiveFragment_existing:
  assumes "liveFragment (roomId w) (timelineFragments txn) = Some lf"
  shows "ensureLiveFragment c None es tline w txn =
           (Inr (\<lparr>fragmentId = f_id lf, eventIndex = eventIndex (defaultLiveKey c)\<rparr>,
                 es @ [FragmentBoundaryStart lf]), w, txn)"
  using assms by (simp add: ensureLiveFragment_def createLiveFragment_def)

lemma ensureLiveFragment_first:
  assumes "liveFragment (roomId w) (timelineFragments txn) = None"
  shows "\<exists>f. f_roomId f = roomId w \<and> f_id f = fragmentId (defaultLiveKey c)
           \<and> previousId f = None \<and> nextId f = None \<and> nextToken f = None
           \<and> previousToken f = (if prev_batch tline = Some [] then None else prev_batch tline)
           \<and> ensureLiveFragment c None es tline w txn =
               (Inr (\<lparr>fragmentId = f_id f, eventIndex = eventIndex (defaultLiveKey c)\<rparr>,
                     es @ [FragmentBoundaryStart f]),
                w\<lparr>fragmentIdComparer := fragmentIdComparer w @ [ComparerAdd f]\<rparr>,
                txn\<lparr>timelineFragments := timelineFragments txn @ [f]\<rparr>)"
  using assms
  by (auto simp: ensureLiveFragment_def createLiveFragment_def addFragment_def Let_def
           split: option.splits)

lemma writeSync_written:
  assumes adj: "rejoinAdjusted rr isRejoin w txn = Inr (Some tline)"
    and evs: "events tline = Some evs" "evs \<noteq> []"
    and en: "ensureLiveFragment c (lastLiveKey w) [] tline w txn = (Inr (k, pushed), w1, txn1)"
  shows "\<exists>res txn' ses.
           writeSync c rr isRejoin w txn = (Inr res, w1, txn')
         \<and> entries res = pushed @ map EventEntry ses
         \<and> eventEntries (entries res) = ses
         \<and> newLiveKey res = Some ((nextKey ^^ length (deduplicateEvents evs)) k)
         \<and> timelineFragments txn' = timelineFragments txn1
         \<and> timelineEvents txn' = timelineEvents txn @ ses
         \<and> map s_event ses = deduplicateEvents evs
         \<and> map s_key ses = keysFrom k (length (deduplicateEvents evs))"
proof -
  from writeSync_unfold[OF adj, of c] obtain ch txn0 where
    f0: "timelineFragments txn0 = timelineFragments txn"
    and e0: "timelineEvents txn0 = timelineEvents txn"
    and ws: "writeSync c rr isRejoin w txn =
               (case writeTimeline c (Some tline) (lastLiveKey w) ch w txn0 of
                  (Inl e, w', txn') \<Rightarrow> (Inl e, w', txn')
                | (Inr (k, pushed, updated, changes'), w', txn') \<Rightarrow>
                    (Inr \<lparr>entries = pushed, updatedEntries = updated, newLiveKey = k,
                          memberChanges = changes'\<rparr>, w', txn'))"
    by blast
  from ensureLiveFragment_fragments_cong[OF f0[symmetric] en] obtain txn2 where
    en0: "ensureLiveFragment c (lastLiveKey w) [] tline w txn0 = (Inr (k, pushed), w1, txn2)"
    and f2: "timelineFragments txn2 = timelineFragments txn1"
    by blast
  from ensureLiveFragment_frame[OF en0] have
    e2: "timelineEvents txn2 = timelineEvents txn0" and np: "eventEntries pushed = []"
    by simp_all
  from writeTimeline_written[OF evs en0, of ch] obtain ses upd ch' txn3 where
    wt: "writeTimeline c (Some tline) (lastLiveKey w) ch w txn0 =
           (Inr (Some ((nextKey ^^ length (deduplicateEvents evs)) k),
                 pushed @ map EventEntry ses, upd, ch'), w1, txn3)"
    and f3: "timelineFragments txn3 = timelineFragments txn2"
    and e3: "timelineEvents txn3 = timelineEvents txn2 @ ses"
    and ses: "map s_event ses = deduplicateEvents evs"
             "map s_key ses = keysFrom k (length (deduplicateEvents evs))"
    by blast
  let ?res = "\<lparr>entries = pushed @ map EventEntry ses, updatedEntries = upd,
               newLiveKey = Some ((nextKey ^^ length (deduplicateEvents evs)) k),
               memberChanges = ch'\<rparr>"
  have "writeSync c rr isRejoin w txn = (Inr ?res, w1, txn3)"
    using ws wt by simp
  moreover have "entries ?res = pushed @ map EventEntry ses" by simp
  moreover have "eventEntries (entries ?res) = ses"
    using np by (simp add: eventEntries_append eventEntries_map)
  moreover have "newLiveKey ?res = Some ((nextKey ^^ length (deduplicateEvents evs)) k)" by simp
  moreover have "timelineFragments txn3 = timelineFragments txn1" using f3 f2 by simp
  moreover have "timelineEvents txn3 = timelineEvents txn @ ses" using e3 e2 e0 by simp
  ultimately show ?thesis using ses by - (intro exI conjI, assumption+)
qed

lemma writeSync_failed:
  assumes adj: "rejoinAdjusted rr isRejoin w txn = Inr (Some tline)"
    and evs: "events tline = Some evs" "evs \<noteq> []"
    and en: "ensureLiveFragment c (lastLiveKey w) [] tline w txn = (Inl e, w1, txn1)"
  shows "\<exists>txn'. writeSync c rr isRejoin w txn = (Inl e, w1, txn')
         \<and> timelineFragments txn' = timelineFragments txn1
         \<and> timelineEvents txn' = timelineEvents txn"
proof -
  from writeSync_unfold[OF adj, of c] obtain ch txn0 where
    f0: "timelineFragments txn0 = timelineFragments txn"
    and e0: "timelineEvents txn0 = timelineEvents txn"
    and ws: "writeSync c rr isRejoin w txn =
               (case writeTimeline c (Some tline) (lastLiveKey w) ch w txn0 of
                  (Inl e, w', txn') \<Rightarrow> (Inl e, w', txn')
                | (Inr (k, pushed, updated, changes'), w', txn') \<Rightarrow>
                    (Inr \<lparr>entries = pushed, updatedEntries = updated, newLiveKey = k,
                          memberChanges = changes'\<rparr>, w', txn'))"
    by blast
  from ensureLiveFragment_fragments_cong[OF f0[symmetric] en] obtain txn2 where
    en0: "ensureLiveFragment c (lastLiveKey w) [] tline w txn0 = (Inl e, w1, txn2)"
    and f2: "timelineFragments txn2 = timelineFragments txn1"
    by blast
  from ensureLiveFragment_frame[OF en0] have e2: "timelineEvents txn2 = timelineEvents txn0"
    by simp
  have "writeSync c rr isRejoin w txn = (Inl e, w1, txn2)"
    using ws writeTimeline_failed[OF evs en0, of ch] by simp
  with f2 e2 e0 show ?thesis by simp
qed

lemma findIndex_none: "\<forall>y \<in> set xs. \<not> P y \<Longrightarrow> findIndex P xs = - 1"
  by (induction xs) auto

lemma findIndex_found:
  "\<forall>y \<in> set pre. \<not> P y \<Longrightarrow> P x \<Longrightarrow> findIndex P (pre @ x # post) = int (length pre)"
  by (induction pre) (auto simp: Let_def)

lemma lastEvents_nil:
  "lastEvents r i (Suc n) es = [] \<longleftrightarrow> (\<forall>e \<in> set es. \<not> (s_roomId e = r \<and> fragmentId (s_key e) = i))"
proof -
  have "lastEvents r i (Suc n) es = [] \<longleftrightarrow>
          filter (\<lambda>e. s_roomId e = r \<and> fragmentId (s_key e) = i) es = []"
  proof -
    have "\<And>xs :: storageEntry list.
            (sort_key (\<lambda>e. eventIndex (s_key e)) xs = []) = (xs = [])"
      by (simp add: length_0_conv[symmetric] del: length_0_conv)
    then show ?thesis
      unfolding lastEvents_def by simp
  qed
  then show ?thesis by (simp add: filter_empty_conv)
qed

lemma getFragment_update:
  assumes "getFragment r i fs = Some F"
  shows "getFragment r i (updateFragment (F\<lparr>nextId := x\<rparr>) fs @ ys) = Some (F\<lparr>nextId := x\<rparr>)"
proof -
  from assms have F: "f_roomId F = r" "f_id F = i"
    unfolding getFragment_def by (auto simp: find_Some_iff)
  from assms show ?thesis
    unfolding getFragment_def updateFragment_def
    by (induction fs) (auto simp: F split: if_splits)
qed

lemma handleRejoinOverlap_no_last:
  assumes "lastLiveKey w = None
         \<or> (\<exists>k. lastLiveKey w = Some k
                \<and> lastEvents (roomId w) (fragmentId k) 1 (timelineEvents txn) = [])"
  shows "handleRejoinOverlap (Some tline) w txn = Inr (tline\<lparr>limited := True\<rparr>)"
  using assms by (auto simp: handleRejoinOverlap_def Let_def)

lemma handleRejoinOverlap_not_found:
  assumes "lastLiveKey w = Some k"
    and "lastEvents (roomId w) (fragmentId k) 1 (timelineEvents txn) = lastEvent # rest"
    and "events tline = Some evs"
    and "event_id (s_event lastEvent) \<notin> event_id ` set evs"
  shows "handleRejoinOverlap (Some tline) w txn = Inr (tline\<lparr>limited := True\<rparr>)"
proof -
  have "\<forall>y \<in> set evs. \<not> event_id y = event_id (s_event lastEvent)"
    using assms(4) by (metis imageI)
  then have "findIndex (\<lambda>e. event_id e = event_id (s_event lastEvent)) evs = - 1"
    by (rule findIndex_none)
  with assms show ?thesis by (auto simp: handleRejoinOverlap_def Let_def)
qed

lemma handleRejoinOverlap_found:
  assumes "lastLiveKey w = Some k"
    and "lastEvents (roomId w) (fragmentId k) 1 (timelineEvents txn) = lastEvent # rest"
    and "events tline = Some (pre @ e # post)"
    and "event_id e = event_id (s_event lastEvent)"
    and "event_id (s_event lastEvent) \<notin> event_id ` set pre"
  shows "handleRejoinOverlap (Some tline) w txn =
           Inr (tline\<lparr>limited := False, events := Some post\<rparr>)"
proof -
  have "findIndex (\<lambda>x. event_id x = event_id (s_event lastEvent)) (pre @ e # post) = int (length pre)"
  proof (rule findIndex_found)
    show "\<forall>y \<in> set pre. \<not> event_id y = event_id (s_event lastEvent)"
      using assms(5) by (metis imageI)
    show "event_id e = event_id (s_event lastEvent)"
      by (rule assms(4))
  qed
  moreover have "nat (int (length pre) + 1) = Suc (length pre)"
    by simp
  ultimately show ?thesis
    using assms by (simp add: handleRejoinOverlap_def Let_def del: of_nat_Suc)
qed

lemma writeSync_continue:
  assumes adj: "rejoinAdjusted rr isRejoin w txn = Inr (Some tline)"
    and evs: "events tline = Some evs"
    and nl: "\<not> limited tline"
    and key: "lastLiveKey w = Some k"
  shows "\<exists>res txn'.
           writeSync c rr isRejoin w txn = (Inr res, w, txn')
         \<and> entries res = map EventEntry (eventEntries (entries res))
         \<and> map s_event (eventEntries (entries res)) = deduplicateEvents evs
         \<and> map s_key (eventEntries (entries res)) = keysFrom k (length (deduplicateEvents evs))
         \<and> timelineFragments txn' = timelineFragments txn
         \<and> timelineEvents txn' = timelineEvents txn @ eventEntries (entries res)"
proof (cases "evs = []")
  case True
  with evs have "Some tline = None \<or> (\<exists>t. Some tline = Some t \<and> (events t = None \<or> events t = Some []))"
    by simp
  from writeSync_nothing[OF adj this, of c] True show ?thesis
    by (auto simp: deduplicateEvents_def)
next
  case False
  have en: "ensureLiveFragment c (lastLiveKey w) [] tline w txn = (Inr (k, []), w, txn)"
    using key ensureLiveFragment_keep[OF nl] by simp
  from writeSync_written[OF adj evs False en] obtain res txn' ses where
    "writeSync c rr isRejoin w txn = (Inr res, w, txn')"
    "entries res = [] @ map EventEntry ses" "eventEntries (entries res) = ses"
    "timelineFragments txn' = timelineFragments txn"
    "timelineEvents txn' = timelineEvents txn @ ses"
    "map s_event ses = deduplicateEvents evs"
    "map s_key ses = keysFrom k (length (deduplicateEvents evs))"
    by blast
  then show ?thesis by auto
qed

lemma writeSync_replace:
  assumes adj: "rejoinAdjusted rr isRejoin w txn = Inr (Some tline)"
    and evs: "events tline = Some evs" "evs \<noteq> []"
    and lim: "limited tline"
    and key: "lastLiveKey w = Some k"
    and old: "getFragment (roomId w) (fragmentId k) (timelineFragments txn) = Some F"
  shows "\<exists>res txn'.
           writeSync c rr isRejoin w txn =
             (Inr res,
              w\<lparr>fragmentIdComparer :=
                   fragmentIdComparer w @
                     [ComparerAppend (fragmentId (nextFragmentKey c k)) (fragmentId k)]\<rparr>,
              txn')
         \<and> entries res =
             FragmentBoundaryEnd (F\<lparr>nextId := Some (fragmentId (nextFragmentKey c k))\<rparr>)
               # FragmentBoundaryStart
                   \<lparr>f_roomId = roomId w, f_id = fragmentId (nextFragmentKey c k),
                    previousId = Some (fragmentId k), nextId = None,
                    previousToken = prev_batch tline, nextToken = None\<rparr>
               # map EventEntry (eventEntries (entries res))
         \<and> timelineFragments txn' =
             updateFragment (F\<lparr>nextId := Some (fragmentId (nextFragmentKey c k))\<rparr>)
               (timelineFragments txn) @
             [\<lparr>f_roomId = roomId w, f_id = fragmentId (nextFragmentKey c k),
               previousId = Some (fragmentId k), nextId = None,
               previousToken = prev_batch tline, nextToken = None\<rparr>]
         \<and> map s_event (eventEntries (entries res)) = deduplicateEvents evs"
proof -
  let ?n = "fragmentId (nextFragmentKey c k)"
  let ?F' = "F\<lparr>nextId := Some ?n\<rparr>"
  let ?N = "\<lparr>f_roomId = roomId w, f_id = ?n, previousId = Some (fragmentId k), nextId = None,
             previousToken = prev_batch tline, nextToken = None\<rparr>"
  have en: "ensureLiveFragment c (lastLiveKey w) [] tline w txn =
          (Inr (nextFragmentKey c k, [FragmentBoundaryEnd ?F', FragmentBoundaryStart ?N]),
           w\<lparr>fragmentIdComparer := fragmentIdComparer w @ [ComparerAppend ?n (fragmentId k)]\<rparr>,
           txn\<lparr>timelineFragments := updateFragment ?F' (timelineFragments txn) @ [?N]\<rparr>)"
    using key ensureLiveFragment_replace[OF lim old, of c "[]"] by simp
  from writeSync_written[OF adj evs en] show ?thesis
    by auto
qed

lemma liveCount_append: "liveCount r (fs @ gs) = liveCount r fs + liveCount r gs"
  by (simp add: liveCount_def)

lemma liveCount_none: "liveFragment r fs = None \<Longrightarrow> liveCount r fs = 0"
  by (simp add: liveFragment_def liveCount_def find_None_iff filter_empty_conv)

lemma liveCount_update_other:
  "r \<noteq> f_roomId F \<Longrightarrow> liveCount r (updateFragment F fs) = liveCount r fs"
  by (induction fs) (auto simp: liveCount_def updateFragment_def)

lemma liveCount_update_same:
  assumes "nextId F \<noteq> None"
    and "\<forall>f \<in> set fs. f_roomId f = f_roomId F \<and> nextId f = None \<longrightarrow> f_id f = f_id F"
  shows "liveCount (f_roomId F) (updateFragment F fs) = 0"
proof -
  have "\<forall>g \<in> set (updateFragment F fs). \<not> (f_roomId g = f_roomId F \<and> nextId g = None)"
    using assms by (auto simp: updateFragment_def)
  then show ?thesis
    by (simp add: liveCount_def filter_empty_conv)
qed

lemma ensureLiveFragment_liveCount:
  assumes inv: "liveCount r (timelineFragments txn) \<le> 1"
    and cons: "\<forall>k. key = Some k \<longrightarrow>
                 (\<forall>f \<in> set (timelineFragments txn).
                     f_roomId f = roomId w \<and> nextId f = None \<longrightarrow> f_id f = fragmentId k)"
  shows "liveCount r (timelineFragments (snd (snd (ensureLiveFragment c key es tline w txn)))) \<le> 1"
proof (cases key)
  case None
  show ?thesis
  proof (cases "liveFragment (roomId w) (timelineFragments txn)")
    case (Some lf)
    from ensureLiveFragment_existing[OF Some, of c es tline] None inv show ?thesis by simp
  next
    case no: None
    from ensureLiveFragment_first[OF no, of c tline es] obtain f where
      f: "f_roomId f = roomId w" "nextId f = None"
      and en: "ensureLiveFragment c None es tline w txn =
               (Inr (\<lparr>fragmentId = f_id f, eventIndex = eventIndex (defaultLiveKey c)\<rparr>,
                     es @ [FragmentBoundaryStart f]),
                w\<lparr>fragmentIdComparer := fragmentIdComparer w @ [ComparerAdd f]\<rparr>,
                txn\<lparr>timelineFragments := timelineFragments txn @ [f]\<rparr>)"
      by blast
    show ?thesis
    proof (cases "r = roomId w")
      case True
      with liveCount_none[OF no] en None show ?thesis
        by (simp add: liveCount_append) (simp add: liveCount_def)
    next
      case False
      with en None inv f show ?thesis
        by (simp add: liveCount_append) (simp add: liveCount_def)
    qed
  qed
next
  case (Some k)
  show ?thesis
  proof (cases "limited tline")
    case False
    from ensureLiveFragment_keep[OF False, of c k es w txn] Some inv show ?thesis by simp
  next
    case True
    show ?thesis
    proof (cases "getFragment (roomId w) (fragmentId k) (timelineFragments txn)")
      case None
      from ensureLiveFragment_missing[OF True None, of c es] Some inv show ?thesis by simp
    next
      case old: (Some F)
      let ?F' = "F\<lparr>nextId := Some (fragmentId (nextFragmentKey c k))\<rparr>"
      let ?N = "\<lparr>f_roomId = roomId w, f_id = fragmentId (nextFragmentKey c k),
                 previousId = Some (fragmentId k), nextId = None,
                 previousToken = prev_batch tline, nextToken = None\<rparr>"
      from old have F: "f_roomId F = roomId w" "f_id F = fragmentId k"
        unfolding getFragment_def by (auto simp: find_Some_iff)
      have fs: "timelineFragments (snd (snd (ensureLiveFragment c key es tline w txn))) =
                  updateFragment ?F' (timelineFragments txn) @ [?N]"
        using ensureLiveFragment_replace[OF True old, of c es] Some by simp
      show ?thesis
      proof (cases "r = roomId w")
        case same: True
        have "liveCount (f_roomId ?F') (updateFragment ?F' (timelineFragments txn)) = 0"
          using cons Some F by (intro liveCount_update_same) auto
        then show ?thesis
          unfolding fs using same F by (simp add: liveCount_append) (simp add: liveCount_def)
      next
        case other: False
        then have "liveCount r (updateFragment ?F' (timelineFragments txn)) =
                     liveCount r (timelineFragments txn)"
          using F by (intro liveCount_update_other) simp
        then show ?thesis
          unfolding fs using other inv by (simp add: liveCount_append) (simp add: liveCount_def)
      qed
    qed
  qed
qed

lemma writeSync_fragments:
  "timelineFragments (snd (snd (writeSync c rr isRejoin w txn))) = timelineFragments txn
   \<or> (\<exists>tline es. timelineFragments (snd (snd (writeSync c rr isRejoin w txn))) =
         timelineFragments (snd (snd (ensureLiveFragment c (lastLiveKey w) es tline w txn))))"
proof (cases "rejoinAdjusted rr isRejoin w txn")
  case (Inl e)
  then show ?thesis by (simp add: writeSync_def rejoinAdjusted_def)
next
  case (Inr tlo)
  show ?thesis
  proof (cases "tlo = None \<or> (\<exists>t. tlo = Some t \<and> (events t = None \<or> events t = Some []))")
    case True
    from writeSync_nothing[OF Inr True, of c] show ?thesis by auto
  next
    case False
    then obtain tline evs where tl: "tlo = Some tline" "events tline = Some evs" "evs \<noteq> []"
      by auto
    from Inr tl have adj: "rejoinAdjusted rr isRejoin w txn = Inr (Some tline)" by simp
    obtain r w1 txn1 where en: "ensureLiveFragment c (lastLiveKey w) [] tline w txn = (r, w1, txn1)"
      by (metis prod_cases3)
    have "timelineFragments (snd (snd (writeSync c rr isRejoin w txn))) = timelineFragments txn1"
    proof (cases r)
      case (Inl e)
      with en writeSync_failed[OF adj tl(2,3), of c e w1 txn1] show ?thesis by auto
    next
      case (Inr kp)
      obtain k pushed where "kp = (k, pushed)" by (cases kp)
      with Inr en writeSync_written[OF adj tl(2,3), of c k pushed w1 txn1] show ?thesis by auto
    qed
    with en show ?thesis by (metis snd_conv)
  qed
qed








lemma handleRejoinOverlap_no_events:
  assumes "events tline = Some []"
  shows "\<exists>t. handleRejoinOverlap (Some tline) w txn = Inr t \<and> events t = Some []"
  using assms
  by (auto simp: handleRejoinOverlap_def Let_def split: option.splits list.splits)

lemma writeSync_no_events:
  assumes "timeline rr = Some tline" and "events tline = Some []"
  shows "map_sum id entries (fst (writeSync c rr isRejoin w txn)) = Inr []
       \<and> map_sum id newLiveKey (fst (writeSync c rr isRejoin w txn)) = Inr (lastLiveKey w)
       \<and> fst (snd (writeSync c rr isRejoin w txn)) = w
       \<and> timelineFragments (snd (snd (writeSync c rr isRejoin w txn))) = timelineFragments txn
       \<and> timelineEvents (snd (snd (writeSync c rr isRejoin w txn))) = timelineEvents txn"
proof -
  from handleRejoinOverlap_no_events[OF assms(2), of w txn] obtain t where
    "handleRejoinOverlap (Some tline) w txn = Inr t" "events t = Some []"
    by blast
  with assms have "\<exists>t. rejoinAdjusted rr isRejoin w txn = Inr (Some t) \<and> events t = Some []"
    by (cases isRejoin) (simp_all add: rejoinAdjusted_def)
  then obtain t' where adj: "rejoinAdjusted rr isRejoin w txn = Inr (Some t')"
    and "events t' = Some []"
    by blast
  then have "Some t' = None \<or> (\<exists>t. Some t' = Some t \<and> (events t = None \<or> events t = Some []))"
    by simp
  from writeSync_nothing[OF adj this, of c] show ?thesis by auto
qed

lemma writeSync_rejoin:
  assumes "handleRejoinOverlap (timeline rr) w txn = Inr t"
  shows "writeSync c rr True w txn = writeSync c (rr\<lparr>timeline := Some t\<rparr>) False w txn"
  using assms by (simp add: writeSync_def writeStateEvents_def)

section \<open>The claims\<close>

text \<open>
  C1, as amended. When the timeline that is written has at least one event and the call
  returns, the event entries returned carry the events of the deduplicated list in its
  order, after the boundary entries; their keys are strictly increasing in the order of
  \<open>EventKey\<close>. When the writer had no key and the fragment store has no live fragment
  for the room, exactly one fragment is added, with the default fragment id, it is
  registered with the comparer, and every key has its id. When the writer had no key and
  the store has a live fragment for the room, no fragment is added and every key has the
  id of that fragment.
\<close>

theorem writeSync_entries_in_order:
  assumes adj: "rejoinAdjusted rr isRejoin w txn = Inr (Some tline)"
    and evs: "events tline = Some evs" "evs \<noteq> []"
    and ok: "writeSync c rr isRejoin w txn = (Inr res, w', txn')"
  shows "map s_event (eventEntries (entries res)) = deduplicateEvents evs
       \<and> sorted_wrt EventKey_less (map s_key (eventEntries (entries res)))
       \<and> (\<exists>bs. entries res = bs @ map EventEntry (eventEntries (entries res))
                \<and> eventEntries bs = [])
       \<and> (lastLiveKey w = None \<and> liveFragment (roomId w) (timelineFragments txn) = None \<longrightarrow>
            (\<exists>f. timelineFragments txn' = timelineFragments txn @ [f]
                \<and> f_roomId f = roomId w \<and> f_id f = fragmentId (defaultLiveKey c)
                \<and> previousId f = None \<and> nextId f = None
                \<and> fragmentIdComparer w' = fragmentIdComparer w @ [ComparerAdd f]
                \<and> entries res =
                    FragmentBoundaryStart f # map EventEntry (eventEntries (entries res))
                \<and> length (eventEntries (entries res)) = length (deduplicateEvents evs)
                \<and> (\<forall>se \<in> set (eventEntries (entries res)). fragmentId (s_key se) = f_id f)))
       \<and> (\<forall>lf. lastLiveKey w = None
                \<and> liveFragment (roomId w) (timelineFragments txn) = Some lf \<longrightarrow>
              timelineFragments txn' = timelineFragments txn \<and> w' = w
            \<and> entries res =
                FragmentBoundaryStart lf # map EventEntry (eventEntries (entries res))
            \<and> (\<forall>se \<in> set (eventEntries (entries res)). fragmentId (s_key se) = f_id lf))"
proof -
  let ?n = "length (deduplicateEvents evs)"
  from writeSync_success_shape[OF adj evs ok] obtain k pushed txn1 ses where
    en: "ensureLiveFragment c (lastLiveKey w) [] tline w txn = (Inr (k, pushed), w', txn1)"
    and es: "entries res = pushed @ map EventEntry ses"
    and fr: "timelineFragments txn' = timelineFragments txn1"
    and se: "map s_event ses = deduplicateEvents evs"
    and sk: "map s_key ses = keysFrom k ?n"
    by blast
  from ensureLiveFragment_frame[OF en] have np: "eventEntries pushed = []" by simp
  with es have ee: "eventEntries (entries res) = ses"
    by (rule eventEntries_of_written)
  have len: "length ses = ?n"
    using se by (metis length_map)
  have frag: "\<forall>x \<in> set ses. fragmentId (s_key x) = fragmentId k"
  proof
    fix x assume "x \<in> set ses"
    then have "s_key x \<in> set (keysFrom k ?n)"
      using sk by (metis image_eqI set_map)
    then show "fragmentId (s_key x) = fragmentId k"
      by (rule keysFrom_fragmentId)
  qed
  have c1: "map s_event (eventEntries (entries res)) = deduplicateEvents evs"
    using ee se by simp
  have c2: "sorted_wrt EventKey_less (map s_key (eventEntries (entries res)))"
    using ee sk keysFrom_sorted[of k ?n] by simp
  have c3: "\<exists>bs. entries res = bs @ map EventEntry (eventEntries (entries res))
                \<and> eventEntries bs = []"
    using es ee np by blast
  have c4: "lastLiveKey w = None \<and> liveFragment (roomId w) (timelineFragments txn) = None \<longrightarrow>
            (\<exists>f. timelineFragments txn' = timelineFragments txn @ [f]
                \<and> f_roomId f = roomId w \<and> f_id f = fragmentId (defaultLiveKey c)
                \<and> previousId f = None \<and> nextId f = None
                \<and> fragmentIdComparer w' = fragmentIdComparer w @ [ComparerAdd f]
                \<and> entries res =
                    FragmentBoundaryStart f # map EventEntry (eventEntries (entries res))
                \<and> length (eventEntries (entries res)) = length (deduplicateEvents evs)
                \<and> (\<forall>se \<in> set (eventEntries (entries res)). fragmentId (s_key se) = f_id f))"
  proof
    assume h: "lastLiveKey w = None \<and> liveFragment (roomId w) (timelineFragments txn) = None"
    then have none: "liveFragment (roomId w) (timelineFragments txn) = None" by simp
    from ensureLiveFragment_first[OF none, of c tline "[]"] obtain f where
      f: "f_roomId f = roomId w" "f_id f = fragmentId (defaultLiveKey c)"
         "previousId f = None" "nextId f = None"
      and en': "ensureLiveFragment c None [] tline w txn =
               (Inr (\<lparr>fragmentId = f_id f, eventIndex = eventIndex (defaultLiveKey c)\<rparr>,
                     [] @ [FragmentBoundaryStart f]),
                w\<lparr>fragmentIdComparer := fragmentIdComparer w @ [ComparerAdd f]\<rparr>,
                txn\<lparr>timelineFragments := timelineFragments txn @ [f]\<rparr>)"
      by blast
    from en en' h have eq: "k = \<lparr>fragmentId = f_id f, eventIndex = eventIndex (defaultLiveKey c)\<rparr>"
      "pushed = [FragmentBoundaryStart f]"
      "w' = w\<lparr>fragmentIdComparer := fragmentIdComparer w @ [ComparerAdd f]\<rparr>"
      "txn1 = txn\<lparr>timelineFragments := timelineFragments txn @ [f]\<rparr>"
      by simp_all
    have "timelineFragments txn' = timelineFragments txn @ [f]"
      "fragmentIdComparer w' = fragmentIdComparer w @ [ComparerAdd f]"
      "entries res = FragmentBoundaryStart f # map EventEntry (eventEntries (entries res))"
      "length (eventEntries (entries res)) = length (deduplicateEvents evs)"
      "\<forall>se \<in> set (eventEntries (entries res)). fragmentId (s_key se) = f_id f"
      using eq fr es ee len frag by simp_all
    with f show "\<exists>f. timelineFragments txn' = timelineFragments txn @ [f]
                \<and> f_roomId f = roomId w \<and> f_id f = fragmentId (defaultLiveKey c)
                \<and> previousId f = None \<and> nextId f = None
                \<and> fragmentIdComparer w' = fragmentIdComparer w @ [ComparerAdd f]
                \<and> entries res =
                    FragmentBoundaryStart f # map EventEntry (eventEntries (entries res))
                \<and> length (eventEntries (entries res)) = length (deduplicateEvents evs)
                \<and> (\<forall>se \<in> set (eventEntries (entries res)). fragmentId (s_key se) = f_id f)"
      by - (intro exI conjI, assumption+)
  qed
  have c5: "\<forall>lf. lastLiveKey w = None
                \<and> liveFragment (roomId w) (timelineFragments txn) = Some lf \<longrightarrow>
              timelineFragments txn' = timelineFragments txn \<and> w' = w
            \<and> entries res =
                FragmentBoundaryStart lf # map EventEntry (eventEntries (entries res))
            \<and> (\<forall>se \<in> set (eventEntries (entries res)). fragmentId (s_key se) = f_id lf)"
  proof (intro allI impI)
    fix lf
    assume h: "lastLiveKey w = None \<and> liveFragment (roomId w) (timelineFragments txn) = Some lf"
    then have some: "liveFragment (roomId w) (timelineFragments txn) = Some lf" by simp
    from en ensureLiveFragment_existing[OF some, of c "[]" tline] h
    have eq: "k = \<lparr>fragmentId = f_id lf, eventIndex = eventIndex (defaultLiveKey c)\<rparr>"
      "pushed = [FragmentBoundaryStart lf]" "w' = w" "txn1 = txn"
      by simp_all
    show "timelineFragments txn' = timelineFragments txn \<and> w' = w
            \<and> entries res =
                FragmentBoundaryStart lf # map EventEntry (eventEntries (entries res))
            \<and> (\<forall>se \<in> set (eventEntries (entries res)). fragmentId (s_key se) = f_id lf)"
      using eq fr es ee frag by simp
  qed
  from c1 c2 c3 c4 c5 show ?thesis by (intro conjI)
qed

theorem writeSync_entries_in_order_witness:
  "rejoinAdjusted (response duplicateBatch False) False (exampleWriter storedProfiles None)
     (exampleTxn [] []) =
     Inr (Some \<lparr>events = Some duplicateBatch, limited = False, prev_batch = Some ''t1''\<rparr>)
   \<and> duplicateBatch \<noteq> []
   \<and> lastLiveKey (exampleWriter storedProfiles None) = None
   \<and> liveFragment ''!room'' [] = None
   \<and> (\<exists>res w' txn'.
         writeSync exampleConstants (response duplicateBatch False) False
           (exampleWriter storedProfiles None) (exampleTxn [] []) = (Inr res, w', txn')
       \<and> map s_event (eventEntries (entries res)) =
           [message ''a'' ''@alice'', memberEvent ''b'' ''@alice'' ''Al'']
       \<and> sorted_wrt EventKey_less (map s_key (eventEntries (entries res)))
       \<and> map s_key (eventEntries (entries res)) =
           [\<lparr>fragmentId = 0, eventIndex = 1\<rparr>, \<lparr>fragmentId = 0, eventIndex = 2\<rparr>]
       \<and> timelineFragments txn' =
           [(exampleFragment 0 None None)\<lparr>previousToken := Some ''t1''\<rparr>])"
proof -
  let ?w = "exampleWriter storedProfiles None"
  let ?txn = "exampleTxn [] []"
  let ?tl = "\<lparr>events = Some duplicateBatch, limited = False, prev_batch = Some ''t1''\<rparr>"
  have adj: "rejoinAdjusted (response duplicateBatch False) False ?w ?txn = Inr (Some ?tl)"
    by (simp add: rejoinAdjusted_def response_def)
  have evs: "events ?tl = Some duplicateBatch" "duplicateBatch \<noteq> []"
    by (simp_all add: duplicateBatch_def)
  have key: "lastLiveKey ?w = None"
    by (simp add: exampleWriter_def)
  have lf: "liveFragment ''!room'' [] = None"
    by (simp add: liveFragment_def)
  obtain res w' txn' where
    ok: "writeSync exampleConstants (response duplicateBatch False) False ?w ?txn = (Inr res, w', txn')"
    and keys: "map s_key (eventEntries (entries res)) =
           [\<lparr>fragmentId = 0, eventIndex = 1\<rparr>, \<lparr>fragmentId = 0, eventIndex = 2\<rparr>]"
    and frs: "timelineFragments txn' =
           [(exampleFragment 0 None None)\<lparr>previousToken := Some ''t1''\<rparr>]"
    by (simp add: writer_defs example_defs duplicateBatch_def Let_def)
  from writeSync_entries_in_order[OF adj evs ok]
  have 1: "map s_event (eventEntries (entries res)) = deduplicateEvents duplicateBatch"
    and 2: "sorted_wrt EventKey_less (map s_key (eventEntries (entries res)))"
    by simp_all
  have 3: "map s_event (eventEntries (entries res)) =
           [message ''a'' ''@alice'', memberEvent ''b'' ''@alice'' ''Al'']"
    using 1 by (simp add: deduplicateEvents_def duplicateBatch_def message_def memberEvent_def)
  from adj evs(2) key lf ok 3 2 keys frs show ?thesis
    by - (intro conjI exI, assumption+)
qed

text \<open>
  The claim as it stands fails for a writer without a key on a store that has a live
  fragment for the room: the event is written into that fragment and none is created.
\<close>

theorem first_sync_with_stored_live_fragment_counterexample:
  "lastLiveKey (exampleWriter storedProfiles None) = None
   \<and> writeSync exampleConstants (response [message ''a'' ''@alice''] False) False
       (exampleWriter storedProfiles None) (exampleTxn [exampleFragment 0 None None] []) =
     (Inr \<lparr>entries = [FragmentBoundaryStart (exampleFragment 0 None None),
                      EventEntry (storedEntry 0 1 (message ''a'' ''@alice''))],
           updatedEntries = [],
           newLiveKey = Some \<lparr>fragmentId = 0, eventIndex = 1\<rparr>, memberChanges = Map.empty\<rparr>,
      exampleWriter storedProfiles None,
      exampleTxn [exampleFragment 0 None None] [storedEntry 0 1 (message ''a'' ''@alice'')])"
  by (simp add: writer_defs example_defs Let_def)

text \<open>
  C2, as amended. On a rejoin, when the writer has a key, the event store has a last event
  in the fragment of that key and the response has a timeline with an event list: if the
  id of that last event occurs in the list, the call is the call without rejoin on the
  response's timeline with \<open>limited\<close> unset and the events up to and including the
  first event of that id dropped; it returns, only event entries for the deduplicated
  remainder are returned and stored, and the fragment store and the writer (with its
  comparer) are as before. If the id does not occur, the call is the call without rejoin
  on the response's timeline with \<open>limited\<close> set; when the list has at least one event
  and the fragment of the key is stored, it returns with a new fragment linked after that
  fragment, registered with the comparer and announced by the two boundary entries; when
  the list is empty, it returns no entries and the key, and the stores are as before.
\<close>

theorem rejoin_overlap_with_last_event:
  assumes key: "lastLiveKey w = Some k"
    and last: "lastEvents (roomId w) (fragmentId k) 1 (timelineEvents txn) = lastEvent # rest"
    and tl: "timeline rr = Some tline"
    and evs: "events tline = Some evs"
  shows "(\<forall>pre e post.
            evs = pre @ e # post \<and> event_id e = event_id (s_event lastEvent)
            \<and> event_id (s_event lastEvent) \<notin> event_id ` set pre \<longrightarrow>
              rejoinAdjusted rr True w txn =
                Inr (Some (tline\<lparr>limited := False, events := Some post\<rparr>))
            \<and> writeSync c rr True w txn =
                writeSync c (rr\<lparr>timeline := Some (tline\<lparr>limited := False, events := Some post\<rparr>)\<rparr>)
                  False w txn
            \<and> (\<exists>res txn'.
                  writeSync c rr True w txn = (Inr res, w, txn')
                \<and> entries res = map EventEntry (eventEntries (entries res))
                \<and> map s_event (eventEntries (entries res)) = deduplicateEvents post
                \<and> timelineFragments txn' = timelineFragments txn
                \<and> timelineEvents txn' = timelineEvents txn @ eventEntries (entries res)))
       \<and> (event_id (s_event lastEvent) \<notin> event_id ` set evs \<longrightarrow>
              rejoinAdjusted rr True w txn = Inr (Some (tline\<lparr>limited := True\<rparr>))
            \<and> writeSync c rr True w txn =
                writeSync c (rr\<lparr>timeline := Some (tline\<lparr>limited := True\<rparr>)\<rparr>) False w txn
            \<and> (\<forall>F. evs \<noteq> []
                     \<and> getFragment (roomId w) (fragmentId k) (timelineFragments txn) = Some F \<longrightarrow>
                  (\<exists>res txn' N.
                     writeSync c rr True w txn =
                       (Inr res,
                        w\<lparr>fragmentIdComparer :=
                             fragmentIdComparer w @ [ComparerAppend (f_id N) (f_id F)]\<rparr>,
                        txn')
                   \<and> N = \<lparr>f_roomId = roomId w, f_id = fragmentId (nextFragmentKey c k),
                           previousId = Some (f_id F), nextId = None,
                           previousToken = prev_batch tline, nextToken = None\<rparr>
                   \<and> timelineFragments txn' =
                       updateFragment (F\<lparr>nextId := Some (f_id N)\<rparr>) (timelineFragments txn) @ [N]
                   \<and> entries res =
                       FragmentBoundaryEnd (F\<lparr>nextId := Some (f_id N)\<rparr>)
                         # FragmentBoundaryStart N
                         # map EventEntry (eventEntries (entries res))
                   \<and> map s_event (eventEntries (entries res)) = deduplicateEvents evs))
            \<and> (evs = [] \<longrightarrow>
                  (\<exists>res txn'.
                     writeSync c rr True w txn = (Inr res, w, txn')
                   \<and> entries res = [] \<and> newLiveKey res = Some k
                   \<and> timelineFragments txn' = timelineFragments txn
                   \<and> timelineEvents txn' = timelineEvents txn)))"
proof (intro conjI allI impI)
  fix pre e post
  assume h: "evs = pre @ e # post \<and> event_id e = event_id (s_event lastEvent)
            \<and> event_id (s_event lastEvent) \<notin> event_id ` set pre"
  with evs have evs': "events tline = Some (pre @ e # post)" by simp
  from h have found: "handleRejoinOverlap (Some tline) w txn =
           Inr (tline\<lparr>limited := False, events := Some post\<rparr>)"
    by (intro handleRejoinOverlap_found[OF key last evs']) simp_all
  with tl show adj: "rejoinAdjusted rr True w txn =
                Inr (Some (tline\<lparr>limited := False, events := Some post\<rparr>))"
    by (simp add: rejoinAdjusted_def)
  from found tl show "writeSync c rr True w txn =
                writeSync c (rr\<lparr>timeline := Some (tline\<lparr>limited := False, events := Some post\<rparr>)\<rparr>)
                  False w txn"
    by (intro writeSync_rejoin) simp
  have "events (tline\<lparr>limited := False, events := Some post\<rparr>) = Some post"
       "\<not> limited (tline\<lparr>limited := False, events := Some post\<rparr>)"
    by simp_all
  from writeSync_continue[OF adj this key, of c]
  show "\<exists>res txn'.
                  writeSync c rr True w txn = (Inr res, w, txn')
                \<and> entries res = map EventEntry (eventEntries (entries res))
                \<and> map s_event (eventEntries (entries res)) = deduplicateEvents post
                \<and> timelineFragments txn' = timelineFragments txn
                \<and> timelineEvents txn' = timelineEvents txn @ eventEntries (entries res)"
    by blast
next
  assume nf: "event_id (s_event lastEvent) \<notin> event_id ` set evs"
  from handleRejoinOverlap_not_found[OF key last evs nf] tl
  show "rejoinAdjusted rr True w txn = Inr (Some (tline\<lparr>limited := True\<rparr>))"
    by (simp add: rejoinAdjusted_def)
next
  assume nf: "event_id (s_event lastEvent) \<notin> event_id ` set evs"
  from handleRejoinOverlap_not_found[OF key last evs nf] tl
  show "writeSync c rr True w txn =
          writeSync c (rr\<lparr>timeline := Some (tline\<lparr>limited := True\<rparr>)\<rparr>) False w txn"
    by (intro writeSync_rejoin) simp
next
  fix F
  assume nf: "event_id (s_event lastEvent) \<notin> event_id ` set evs"
    and h: "evs \<noteq> [] \<and> getFragment (roomId w) (fragmentId k) (timelineFragments txn) = Some F"
  from handleRejoinOverlap_not_found[OF key last evs nf] tl
  have adj: "rejoinAdjusted rr True w txn = Inr (Some (tline\<lparr>limited := True\<rparr>))"
    by (simp add: rejoinAdjusted_def)
  have e: "events (tline\<lparr>limited := True\<rparr>) = Some evs" "evs \<noteq> []"
    and l: "limited (tline\<lparr>limited := True\<rparr>)"
    using evs h by simp_all
  from h have old: "getFragment (roomId w) (fragmentId k) (timelineFragments txn) = Some F"
    by simp
  from old have F: "f_id F = fragmentId k"
    unfolding getFragment_def by (auto simp: find_Some_iff)
  from writeSync_replace[OF adj e l key old, of c] F
  show "\<exists>res txn' N.
                     writeSync c rr True w txn =
                       (Inr res,
                        w\<lparr>fragmentIdComparer :=
                             fragmentIdComparer w @ [ComparerAppend (f_id N) (f_id F)]\<rparr>,
                        txn')
                   \<and> N = \<lparr>f_roomId = roomId w, f_id = fragmentId (nextFragmentKey c k),
                           previousId = Some (f_id F), nextId = None,
                           previousToken = prev_batch tline, nextToken = None\<rparr>
                   \<and> timelineFragments txn' =
                       updateFragment (F\<lparr>nextId := Some (f_id N)\<rparr>) (timelineFragments txn) @ [N]
                   \<and> entries res =
                       FragmentBoundaryEnd (F\<lparr>nextId := Some (f_id N)\<rparr>)
                         # FragmentBoundaryStart N
                         # map EventEntry (eventEntries (entries res))
                   \<and> map s_event (eventEntries (entries res)) = deduplicateEvents evs"
    by auto
next
  assume nf: "event_id (s_event lastEvent) \<notin> event_id ` set evs"
    and empty: "evs = []"
  from handleRejoinOverlap_not_found[OF key last evs nf] tl
  have adj: "rejoinAdjusted rr True w txn = Inr (Some (tline\<lparr>limited := True\<rparr>))"
    by (simp add: rejoinAdjusted_def)
  have "Some (tline\<lparr>limited := True\<rparr>) = None
      \<or> (\<exists>t. Some (tline\<lparr>limited := True\<rparr>) = Some t \<and> (events t = None \<or> events t = Some []))"
    using evs empty by simp
  from writeSync_nothing[OF adj this, of c] key
  show "\<exists>res txn'.
                     writeSync c rr True w txn = (Inr res, w, txn')
                   \<and> entries res = [] \<and> newLiveKey res = Some k
                   \<and> timelineFragments txn' = timelineFragments txn
                   \<and> timelineEvents txn' = timelineEvents txn"
    by auto
qed

theorem rejoin_overlap_with_last_event_witness:
  "lastLiveKey (exampleWriter storedProfiles (Some \<lparr>fragmentId = 0, eventIndex = 1\<rparr>))
     = Some \<lparr>fragmentId = 0, eventIndex = 1\<rparr>
   \<and> lastEvents ''!room'' 0 1 [storedEntry 0 1 (message ''e'' ''@alice'')]
       = [storedEntry 0 1 (message ''e'' ''@alice'')]
   \<and> rejoinAdjusted (response overlapBatch True) True
       (exampleWriter storedProfiles (Some \<lparr>fragmentId = 0, eventIndex = 1\<rparr>))
       (exampleTxn [exampleFragment 0 None None] [storedEntry 0 1 (message ''e'' ''@alice'')]) =
       Inr (Some \<lparr>events = Some [message ''x'' ''@bob'', message ''y'' ''@alice''],
                  limited = False, prev_batch = Some ''t1''\<rparr>)
   \<and> (\<exists>res txn'.
         writeSync exampleConstants (response overlapBatch True) True
           (exampleWriter storedProfiles (Some \<lparr>fragmentId = 0, eventIndex = 1\<rparr>))
           (exampleTxn [exampleFragment 0 None None] [storedEntry 0 1 (message ''e'' ''@alice'')]) =
           (Inr res, exampleWriter storedProfiles (Some \<lparr>fragmentId = 0, eventIndex = 1\<rparr>), txn')
       \<and> entries res = map EventEntry (eventEntries (entries res))
       \<and> map s_event (eventEntries (entries res)) = [message ''x'' ''@bob'', message ''y'' ''@alice'']
       \<and> timelineFragments txn' = [exampleFragment 0 None None])"
proof -
  let ?w = "exampleWriter storedProfiles (Some \<lparr>fragmentId = 0, eventIndex = 1\<rparr>)"
  let ?E = "storedEntry 0 1 (message ''e'' ''@alice'')"
  let ?txn = "exampleTxn [exampleFragment 0 None None] [?E]"
  let ?tl = "\<lparr>events = Some overlapBatch, limited = True, prev_batch = Some ''t1''\<rparr>"
  have key: "lastLiveKey ?w = Some \<lparr>fragmentId = 0, eventIndex = 1\<rparr>"
    by (simp add: exampleWriter_def)
  have le: "lastEvents ''!room'' 0 1 [?E] = [?E]"
    by (simp add: lastEvents_def storedEntry_def createEventEntry_def)
  have last: "lastEvents (roomId ?w) (fragmentId \<lparr>fragmentId = 0, eventIndex = 1\<rparr>) 1 (timelineEvents ?txn) = ?E # []"
    using le by (simp add: exampleWriter_def constructor_def exampleTxn_def)
  have tl: "timeline (response overlapBatch True) = Some ?tl"
    by (simp add: response_def)
  have evs: "events ?tl = Some overlapBatch" by simp
  have split: "overlapBatch = [] @ message ''e'' ''@alice'' # [message ''x'' ''@bob'', message ''y'' ''@alice'']
      \<and> event_id (message ''e'' ''@alice'') = event_id (s_event ?E)
      \<and> event_id (s_event ?E) \<notin> event_id ` set []"
    by (simp add: overlapBatch_def storedEntry_def createEventEntry_def)
  note found = rejoin_overlap_with_last_event[OF key last tl evs, of exampleConstants,
      THEN conjunct1, rule_format, OF split]
  from found[THEN conjunct1]
  have adj: "rejoinAdjusted (response overlapBatch True) True ?w ?txn =
       Inr (Some \<lparr>events = Some [message ''x'' ''@bob'', message ''y'' ''@alice''],
                  limited = False, prev_batch = Some ''t1''\<rparr>)"
    by simp
  from found[THEN conjunct2, THEN conjunct2]
  have "\<exists>res txn'.
         writeSync exampleConstants (response overlapBatch True) True ?w ?txn = (Inr res, ?w, txn')
       \<and> entries res = map EventEntry (eventEntries (entries res))
       \<and> map s_event (eventEntries (entries res)) =
            deduplicateEvents [message ''x'' ''@bob'', message ''y'' ''@alice'']
       \<and> timelineFragments txn' = timelineFragments ?txn
       \<and> timelineEvents txn' = timelineEvents ?txn @ eventEntries (entries res)"
    by simp
  then obtain res txn' where
    1: "writeSync exampleConstants (response overlapBatch True) True ?w ?txn = (Inr res, ?w, txn')"
    and 2: "entries res = map EventEntry (eventEntries (entries res))"
    and se: "map s_event (eventEntries (entries res)) =
            deduplicateEvents [message ''x'' ''@bob'', message ''y'' ''@alice'']"
    and fr: "timelineFragments txn' = timelineFragments ?txn"
    by blast
  have 3: "map s_event (eventEntries (entries res)) = [message ''x'' ''@bob'', message ''y'' ''@alice'']"
    using se by (simp add: deduplicateEvents_def message_def)
  have 4: "timelineFragments txn' = [exampleFragment 0 None None]"
    using fr by (simp add: exampleTxn_def)
  from key le adj 1 2 3 4 show ?thesis by - (intro conjI exI, assumption+)
qed

text \<open>
  The claim as it stands fails when the id does not occur because the event list is
  empty: \<open>limited\<close> is forced, yet nothing is written and no fragment is created.
\<close>

theorem rejoin_without_overlap_and_events_counterexample:
  "lastEvents ''!room'' 0 1 [storedEntry 0 1 (message ''e'' ''@alice'')]
     = [storedEntry 0 1 (message ''e'' ''@alice'')]
   \<and> rejoinAdjusted (response [] False) True
       (exampleWriter storedProfiles (Some \<lparr>fragmentId = 0, eventIndex = 1\<rparr>))
       (exampleTxn [exampleFragment 0 None None] [storedEntry 0 1 (message ''e'' ''@alice'')]) =
       Inr (Some \<lparr>events = Some [], limited = True, prev_batch = Some ''t1''\<rparr>)
   \<and> writeSync exampleConstants (response [] False) True
       (exampleWriter storedProfiles (Some \<lparr>fragmentId = 0, eventIndex = 1\<rparr>))
       (exampleTxn [exampleFragment 0 None None] [storedEntry 0 1 (message ''e'' ''@alice'')]) =
     (Inr \<lparr>entries = [], updatedEntries = [],
           newLiveKey = Some \<lparr>fragmentId = 0, eventIndex = 1\<rparr>, memberChanges = Map.empty\<rparr>,
      exampleWriter storedProfiles (Some \<lparr>fragmentId = 0, eventIndex = 1\<rparr>),
      exampleTxn [exampleFragment 0 None None] [storedEntry 0 1 (message ''e'' ''@alice'')])"
  by (simp add: writer_defs example_defs Let_def)

text \<open>
  C3, as amended. When the timeline that is written is limited and has at least one
  event, the writer has a key and the fragment store holds the fragment \<open>F\<close> of that
  key, the call returns, the store holds \<open>F\<close> with \<open>nextId\<close> set to the id of a
  new fragment \<open>N\<close> appended to it, \<open>N\<close> has \<open>previousId\<close> the id of \<open>F\<close>, no
  \<open>nextId\<close> and the timeline's \<open>prev_batch\<close> as \<open>previousToken\<close>, the comparer
  is told to append \<open>N\<close> after \<open>F\<close>, and the entries returned are the end boundary
  of \<open>F\<close>, the start boundary of \<open>N\<close> and then the event entries.
\<close>

theorem limited_sync_replaces_live_fragment:
  assumes adj: "rejoinAdjusted rr isRejoin w txn = Inr (Some tline)"
    and evs: "events tline = Some evs" "evs \<noteq> []"
    and lim: "limited tline"
    and key: "lastLiveKey w = Some k"
    and old: "getFragment (roomId w) (fragmentId k) (timelineFragments txn) = Some F"
  shows "\<exists>res txn' F' N.
           writeSync c rr isRejoin w txn =
             (Inr res,
              w\<lparr>fragmentIdComparer := fragmentIdComparer w @ [ComparerAppend (f_id N) (f_id F)]\<rparr>,
              txn')
         \<and> F' = F\<lparr>nextId := Some (f_id N)\<rparr>
         \<and> N = \<lparr>f_roomId = roomId w, f_id = fragmentId (nextFragmentKey c k),
                 previousId = Some (f_id F), nextId = None,
                 previousToken = prev_batch tline, nextToken = None\<rparr>
         \<and> timelineFragments txn' = updateFragment F' (timelineFragments txn) @ [N]
         \<and> getFragment (roomId w) (f_id F) (timelineFragments txn') = Some F'
         \<and> entries res =
             FragmentBoundaryEnd F' # FragmentBoundaryStart N
               # map EventEntry (eventEntries (entries res))
         \<and> map s_event (eventEntries (entries res)) = deduplicateEvents evs"
proof -
  let ?n = "fragmentId (nextFragmentKey c k)"
  let ?F' = "F\<lparr>nextId := Some ?n\<rparr>"
  let ?N = "\<lparr>f_roomId = roomId w, f_id = ?n, previousId = Some (fragmentId k), nextId = None,
             previousToken = prev_batch tline, nextToken = None\<rparr>"
  from old have F: "f_roomId F = roomId w" "f_id F = fragmentId k"
    unfolding getFragment_def by (auto simp: find_Some_iff)
  from writeSync_replace[OF adj evs lim key old, of c] obtain res txn' where
    ws: "writeSync c rr isRejoin w txn =
           (Inr res,
            w\<lparr>fragmentIdComparer := fragmentIdComparer w @ [ComparerAppend ?n (fragmentId k)]\<rparr>,
            txn')"
    and es: "entries res =
           FragmentBoundaryEnd ?F' # FragmentBoundaryStart ?N
             # map EventEntry (eventEntries (entries res))"
    and fr: "timelineFragments txn' = updateFragment ?F' (timelineFragments txn) @ [?N]"
    and se: "map s_event (eventEntries (entries res)) = deduplicateEvents evs"
    by blast
  have found: "getFragment (roomId w) (f_id F) (timelineFragments txn') = Some ?F'"
    using getFragment_update[OF old, of "Some ?n" "[?N]"] F fr by simp
  have "writeSync c rr isRejoin w txn =
             (Inr res,
              w\<lparr>fragmentIdComparer := fragmentIdComparer w @ [ComparerAppend (f_id ?N) (f_id F)]\<rparr>,
              txn')"
       "?F' = F\<lparr>nextId := Some (f_id ?N)\<rparr>"
       "?N = \<lparr>f_roomId = roomId w, f_id = fragmentId (nextFragmentKey c k),
                 previousId = Some (f_id F), nextId = None,
                 previousToken = prev_batch tline, nextToken = None\<rparr>"
       "timelineFragments txn' = updateFragment ?F' (timelineFragments txn) @ [?N]"
       "getFragment (roomId w) (f_id F) (timelineFragments txn') = Some ?F'"
       "entries res =
             FragmentBoundaryEnd ?F' # FragmentBoundaryStart ?N
               # map EventEntry (eventEntries (entries res))"
       "map s_event (eventEntries (entries res)) = deduplicateEvents evs"
    using ws F fr found es se by simp_all
  then show ?thesis by - (intro exI conjI, assumption+)
qed

theorem limited_sync_replaces_live_fragment_witness:
  "rejoinAdjusted (response [message ''a'' ''@alice''] True) False
     (exampleWriter storedProfiles (Some \<lparr>fragmentId = 0, eventIndex = 5\<rparr>))
     (exampleTxn [exampleFragment 0 None None] []) =
     Inr (Some \<lparr>events = Some [message ''a'' ''@alice''], limited = True, prev_batch = Some ''t1''\<rparr>)
   \<and> getFragment ''!room'' 0 [exampleFragment 0 None None] = Some (exampleFragment 0 None None)
   \<and> (\<exists>res txn'.
         writeSync exampleConstants (response [message ''a'' ''@alice''] True) False
           (exampleWriter storedProfiles (Some \<lparr>fragmentId = 0, eventIndex = 5\<rparr>))
           (exampleTxn [exampleFragment 0 None None] []) =
           (Inr res,
            (exampleWriter storedProfiles (Some \<lparr>fragmentId = 0, eventIndex = 5\<rparr>))
              \<lparr>fragmentIdComparer := [ComparerAppend 1 0]\<rparr>,
            txn')
       \<and> timelineFragments txn' =
           [exampleFragment 0 None (Some 1),
            (exampleFragment 1 (Some 0) None)\<lparr>previousToken := Some ''t1''\<rparr>]
       \<and> entries res =
           FragmentBoundaryEnd (exampleFragment 0 None (Some 1))
             # FragmentBoundaryStart ((exampleFragment 1 (Some 0) None)\<lparr>previousToken := Some ''t1''\<rparr>)
             # map EventEntry (eventEntries (entries res))
       \<and> map s_event (eventEntries (entries res)) = [message ''a'' ''@alice''])"
proof -
  let ?w = "exampleWriter storedProfiles (Some \<lparr>fragmentId = 0, eventIndex = 5\<rparr>)"
  let ?txn = "exampleTxn [exampleFragment 0 None None] []"
  let ?tl = "\<lparr>events = Some [message ''a'' ''@alice''], limited = True, prev_batch = Some ''t1''\<rparr>"
  have adj: "rejoinAdjusted (response [message ''a'' ''@alice''] True) False ?w ?txn = Inr (Some ?tl)"
    by (simp add: rejoinAdjusted_def response_def)
  have evs: "events ?tl = Some [message ''a'' ''@alice'']" "[message ''a'' ''@alice''] \<noteq> []"
    by simp_all
  have lim: "limited ?tl" by simp
  have key: "lastLiveKey ?w = Some \<lparr>fragmentId = 0, eventIndex = 5\<rparr>"
    by (simp add: exampleWriter_def)
  have old: "getFragment (roomId ?w) (fragmentId \<lparr>fragmentId = 0, eventIndex = 5\<rparr>) (timelineFragments ?txn)
               = Some (exampleFragment 0 None None)"
    by (simp add: getFragment_def example_defs constructor_def)
  have g: "getFragment ''!room'' 0 [exampleFragment 0 None None] = Some (exampleFragment 0 None None)"
    by (simp add: getFragment_def example_defs)
  from limited_sync_replaces_live_fragment[OF adj evs lim key old, of exampleConstants]
  obtain res txn' F' N where
    ws: "writeSync exampleConstants (response [message ''a'' ''@alice''] True) False ?w ?txn =
           (Inr res,
            ?w\<lparr>fragmentIdComparer :=
                 fragmentIdComparer ?w @ [ComparerAppend (f_id N) (f_id (exampleFragment 0 None None))]\<rparr>,
            txn')"
    and F': "F' = (exampleFragment 0 None None)\<lparr>nextId := Some (f_id N)\<rparr>"
    and N: "N = \<lparr>f_roomId = roomId ?w,
                 f_id = fragmentId (nextFragmentKey exampleConstants \<lparr>fragmentId = 0, eventIndex = 5\<rparr>),
                 previousId = Some (f_id (exampleFragment 0 None None)), nextId = None,
                 previousToken = prev_batch ?tl, nextToken = None\<rparr>"
    and fr: "timelineFragments txn' = updateFragment F' (timelineFragments ?txn) @ [N]"
    and en: "entries res =
             FragmentBoundaryEnd F' # FragmentBoundaryStart N
               # map EventEntry (eventEntries (entries res))"
    and se: "map s_event (eventEntries (entries res)) = deduplicateEvents [message ''a'' ''@alice'']"
    by blast
  have N': "N = (exampleFragment 1 (Some 0) None)\<lparr>previousToken := Some ''t1''\<rparr>"
    using N by (simp add: example_defs nextFragmentKey_def constructor_def)
  have F'': "F' = exampleFragment 0 None (Some 1)"
    using F' N' by (simp add: exampleFragment_def)
  have 1: "writeSync exampleConstants (response [message ''a'' ''@alice''] True) False ?w ?txn =
           (Inr res, ?w\<lparr>fragmentIdComparer := [ComparerAppend 1 0]\<rparr>, txn')"
    using ws N' by (simp add: example_defs constructor_def)
  have 2: "timelineFragments txn' =
           [exampleFragment 0 None (Some 1),
            (exampleFragment 1 (Some 0) None)\<lparr>previousToken := Some ''t1''\<rparr>]"
    using fr F'' N' by (simp add: updateFragment_def example_defs)
  have 3: "entries res =
           FragmentBoundaryEnd (exampleFragment 0 None (Some 1))
             # FragmentBoundaryStart ((exampleFragment 1 (Some 0) None)\<lparr>previousToken := Some ''t1''\<rparr>)
             # map EventEntry (eventEntries (entries res))"
    using en F'' N' by simp
  have 4: "map s_event (eventEntries (entries res)) = [message ''a'' ''@alice'']"
    using se by (simp add: deduplicateEvents_def)
  from adj g 1 2 3 4 show ?thesis by - (intro conjI exI, assumption+)
qed

text \<open>
  The claim as it stands fails for a limited timeline with no events: nothing is written,
  the store and the comparer are left as they were and no entry is returned.
\<close>

theorem limited_sync_without_events_counterexample:
  "limited (the (timeline (response [] True)))
   \<and> getFragment ''!room'' 0 [exampleFragment 0 None None] = Some (exampleFragment 0 None None)
   \<and> writeSync exampleConstants (response [] True) False
       (exampleWriter storedProfiles (Some \<lparr>fragmentId = 0, eventIndex = 5\<rparr>))
       (exampleTxn [exampleFragment 0 None None] []) =
     (Inr \<lparr>entries = [], updatedEntries = [],
           newLiveKey = Some \<lparr>fragmentId = 0, eventIndex = 5\<rparr>, memberChanges = Map.empty\<rparr>,
      exampleWriter storedProfiles (Some \<lparr>fragmentId = 0, eventIndex = 5\<rparr>),
      exampleTxn [exampleFragment 0 None None] [])"
  by (simp add: writer_defs example_defs Let_def)

text \<open>
  C4. A room response without a \<open>timeline\<close> section, written with \<open>isRejoin\<close>
  set, is not tolerated: \<open>_handleRejoinOverlap\<close> reads the missing timeline and the
  call throws a TypeError before anything is written. The same response written with
  \<open>isRejoin\<close> unset returns no entries and the writer's last live key, whatever the
  \<open>state\<close> section holds, and adds no fragment; so does a response whose timeline has
  an empty event list, with \<open>isRejoin\<close> set or unset.
\<close>

theorem writeSync_rejoin_missing_timeline:
  "writeSync c \<lparr>state = s, timeline = None\<rparr> True w txn = (Inl TypeError, w, txn)
   \<and> fst (writeSync c \<lparr>state = s, timeline = None\<rparr> False w txn) =
       Inr \<lparr>entries = [], updatedEntries = [], newLiveKey = lastLiveKey w,
            memberChanges =
              fst (writeStateEvents c \<lparr>state = s, timeline = None\<rparr> Map.empty None w txn)\<rparr>
   \<and> timelineFragments (snd (snd (writeSync c \<lparr>state = s, timeline = None\<rparr> False w txn)))
       = timelineFragments txn
   \<and> map_sum id entries
        (fst (writeSync c \<lparr>state = s, timeline = Some (tline\<lparr>events := Some []\<rparr>)\<rparr> isRejoin w txn))
       = Inr []
   \<and> map_sum id newLiveKey
        (fst (writeSync c \<lparr>state = s, timeline = Some (tline\<lparr>events := Some []\<rparr>)\<rparr> isRejoin w txn))
       = Inr (lastLiveKey w)
   \<and> timelineFragments
        (snd (snd (writeSync c \<lparr>state = s, timeline = Some (tline\<lparr>events := Some []\<rparr>)\<rparr>
                     isRejoin w txn)))
       = timelineFragments txn"
proof -
  let ?absent = "\<lparr>state = s, timeline = None\<rparr>"
  let ?empty = "\<lparr>state = s, timeline = Some (tline\<lparr>events := Some []\<rparr>)\<rparr>"
  have thrown: "writeSync c ?absent True w txn = (Inl TypeError, w, txn)"
    by (simp add: writeSync_def handleRejoinOverlap_def Let_def
             split: option.splits list.splits)
  have adj: "rejoinAdjusted ?absent False w txn = Inr None"
    by (simp add: rejoinAdjusted_def)
  have tolerated: "fst (writeSync c ?absent False w txn) =
       Inr \<lparr>entries = [], updatedEntries = [], newLiveKey = lastLiveKey w,
            memberChanges = fst (writeStateEvents c ?absent Map.empty None w txn)\<rparr>"
    by (simp add: writeSync_def writeTimeline_def split: prod.splits)
  have kept: "timelineFragments (snd (snd (writeSync c ?absent False w txn))) = timelineFragments txn"
    using writeSync_nothing[OF adj, of c] by auto
  have "timeline ?empty = Some (tline\<lparr>events := Some []\<rparr>)"
       "events (tline\<lparr>events := Some []\<rparr>) = Some []"
    by simp_all
  from writeSync_no_events[OF this, of c isRejoin w txn] thrown tolerated kept
  show ?thesis by simp
qed

text \<open>
  C5. Deduplication keeps, of every event id, the first event that carries it, in the
  order of the input: the result is the input restricted to the positions whose id does
  not occur at an earlier position, so its ids are distinct and are all the ids of the
  input. A \<open>writeSync\<close> call that returns hands back one event entry per event of the
  deduplicated list of the timeline it writes, in that order, and these are exactly the
  entries it inserted into the event store.
\<close>

theorem deduplicateEvents_first_seen:
  assumes adj: "rejoinAdjusted rr isRejoin w txn = Inr (Some tline)"
    and evs: "events tline = Some evs"
    and ok: "writeSync c rr isRejoin w txn = (Inr res, w', txn')"
  shows "deduplicateEvents evs =
           map ((!) evs)
             (filter (\<lambda>i. event_id (evs ! i) \<notin> event_id ` set (take i evs)) [0..<length evs])
       \<and> distinct (map event_id (deduplicateEvents evs))
       \<and> set (map event_id (deduplicateEvents evs)) = set (map event_id evs)
       \<and> map s_event (eventEntries (entries res)) = deduplicateEvents evs
       \<and> timelineEvents txn' = timelineEvents txn @ eventEntries (entries res)"
proof -
  have first: "deduplicateEvents evs =
           map ((!) evs)
             (filter (\<lambda>i. event_id (evs ! i) \<notin> event_id ` set (take i evs)) [0..<length evs])"
    unfolding deduplicateEvents_def by (subst filterSeen_index) simp
  have dist: "distinct (map event_id (deduplicateEvents evs))"
    unfolding deduplicateEvents_def by (rule filterSeen_distinct)
  have ids: "set (map event_id (deduplicateEvents evs)) = set (map event_id evs)"
    unfolding deduplicateEvents_def using filterSeen_ids[of "{}" evs] by simp
  have written: "map s_event (eventEntries (entries res)) = deduplicateEvents evs
       \<and> timelineEvents txn' = timelineEvents txn @ eventEntries (entries res)"
  proof (cases "evs = []")
    case True
    with evs have "Some tline = None \<or> (\<exists>t. Some tline = Some t \<and> (events t = None \<or> events t = Some []))"
      by simp
    from writeSync_nothing[OF adj this, of c] ok True show ?thesis
      by (auto simp: deduplicateEvents_def)
  next
    case False
    from writeSync_success_shape[OF adj evs False ok] obtain k pushed txn1 ses where
      en: "ensureLiveFragment c (lastLiveKey w) [] tline w txn = (Inr (k, pushed), w', txn1)"
      and es: "entries res = pushed @ map EventEntry ses"
      and te: "timelineEvents txn' = timelineEvents txn @ ses"
      and se: "map s_event ses = deduplicateEvents evs"
      by blast
    from ensureLiveFragment_frame[OF en] have "eventEntries pushed = []" by simp
    with es have "eventEntries (entries res) = ses"
      by (rule eventEntries_of_written)
    with te se show ?thesis by simp
  qed
  from first dist ids written show ?thesis by blast
qed

theorem deduplicateEvents_first_seen_witness:
  "\<exists>tline res w' txn'.
     rejoinAdjusted (response duplicateBatch False) False (exampleWriter storedProfiles None)
       (exampleTxn [] []) = Inr (Some tline)
   \<and> events tline = Some duplicateBatch
   \<and> writeSync exampleConstants (response duplicateBatch False) False
       (exampleWriter storedProfiles None) (exampleTxn [] []) = (Inr res, w', txn')
   \<and> deduplicateEvents duplicateBatch = [message ''a'' ''@alice'', memberEvent ''b'' ''@alice'' ''Al'']
   \<and> map s_event (eventEntries (entries res)) =
        [message ''a'' ''@alice'', memberEvent ''b'' ''@alice'' ''Al'']
   \<and> timelineEvents txn' = eventEntries (entries res)"
proof -
  define tline where "tline = \<lparr>events = Some duplicateBatch, limited = False, prev_batch = Some ''t1''\<rparr>"
  have adj: "rejoinAdjusted (response duplicateBatch False) False (exampleWriter storedProfiles None)
       (exampleTxn [] []) = Inr (Some tline)"
    by (simp add: rejoinAdjusted_def response_def tline_def)
  have evs: "events tline = Some duplicateBatch"
    by (simp add: tline_def)
  obtain res w' txn' where ok: "writeSync exampleConstants (response duplicateBatch False) False
       (exampleWriter storedProfiles None) (exampleTxn [] []) = (Inr res, w', txn')"
    by (simp add: writer_defs example_defs duplicateBatch_def Let_def)
  have dd: "deduplicateEvents duplicateBatch = [message ''a'' ''@alice'', memberEvent ''b'' ''@alice'' ''Al'']"
    by (simp add: deduplicateEvents_def duplicateBatch_def message_def memberEvent_def)
  from deduplicateEvents_first_seen[OF adj evs ok] dd have
    "map s_event (eventEntries (entries res)) =
        [message ''a'' ''@alice'', memberEvent ''b'' ''@alice'' ''Al'']"
    "timelineEvents txn' = eventEntries (entries res)"
    by (simp_all add: exampleTxn_def)
  with adj evs ok dd show ?thesis by - (intro exI conjI, assumption+)
qed




text \<open>
  C7. When the call has to replace the live fragment (the timeline that is written is
  limited and has at least one event, and the writer has a key) and the fragment store
  has no fragment for that key, the call ends with the error; the writer, with its
  comparer, is as before, and so are the fragment store and the event store.
\<close>

theorem replace_missing_fragment_aborts:
  assumes adj: "rejoinAdjusted rr isRejoin w txn = Inr (Some tline)"
    and evs: "events tline = Some evs" "evs \<noteq> []"
    and lim: "limited tline"
    and key: "lastLiveKey w = Some k"
    and gone: "getFragment (roomId w) (fragmentId k) (timelineFragments txn) = None"
  shows "fst (writeSync c rr isRejoin w txn) = Inl (OldLiveFragmentMissing (fragmentId k))
       \<and> fst (snd (writeSync c rr isRejoin w txn)) = w
       \<and> timelineFragments (snd (snd (writeSync c rr isRejoin w txn))) = timelineFragments txn
       \<and> timelineEvents (snd (snd (writeSync c rr isRejoin w txn))) = timelineEvents txn"
proof -
  have "ensureLiveFragment c (lastLiveKey w) [] tline w txn =
          (Inl (OldLiveFragmentMissing (fragmentId k)), w, txn)"
    using key ensureLiveFragment_missing[OF lim gone] by simp
  from writeSync_failed[OF adj evs this] show ?thesis by auto
qed

theorem replace_missing_fragment_aborts_witness:
  "rejoinAdjusted (response [message ''a'' ''@alice''] True) False
     (exampleWriter storedProfiles (Some \<lparr>fragmentId = 0, eventIndex = 5\<rparr>)) (exampleTxn [] []) =
     Inr (Some \<lparr>events = Some [message ''a'' ''@alice''], limited = True, prev_batch = Some ''t1''\<rparr>)
   \<and> getFragment ''!room'' 0 [] = None
   \<and> writeSync exampleConstants (response [message ''a'' ''@alice''] True) False
       (exampleWriter storedProfiles (Some \<lparr>fragmentId = 0, eventIndex = 5\<rparr>)) (exampleTxn [] []) =
     (Inl (OldLiveFragmentMissing 0),
      exampleWriter storedProfiles (Some \<lparr>fragmentId = 0, eventIndex = 5\<rparr>), exampleTxn [] [])"
proof -
  let ?w = "exampleWriter storedProfiles (Some \<lparr>fragmentId = 0, eventIndex = 5\<rparr>)"
  let ?txn = "exampleTxn [] []"
  let ?tl = "\<lparr>events = Some [message ''a'' ''@alice''], limited = True, prev_batch = Some ''t1''\<rparr>"
  have adj: "rejoinAdjusted (response [message ''a'' ''@alice''] True) False ?w ?txn = Inr (Some ?tl)"
    by (simp add: rejoinAdjusted_def response_def)
  have evs: "events ?tl = Some [message ''a'' ''@alice'']" "[message ''a'' ''@alice''] \<noteq> []"
    by simp_all
  have lim: "limited ?tl" by simp
  have key: "lastLiveKey ?w = Some \<lparr>fragmentId = 0, eventIndex = 5\<rparr>"
    by (simp add: exampleWriter_def)
  have gone: "getFragment (roomId ?w) (fragmentId \<lparr>fragmentId = 0, eventIndex = 5\<rparr>) (timelineFragments ?txn) = None"
    by (simp add: getFragment_def example_defs)
  have g: "getFragment ''!room'' 0 [] = None"
    by (simp add: getFragment_def)
  have unchanged: "snd (snd (writeSync exampleConstants (response [message ''a'' ''@alice''] True) False ?w ?txn)) = ?txn"
    by (simp add: writer_defs example_defs Let_def)
  from replace_missing_fragment_aborts[OF adj evs lim key gone, of exampleConstants] unchanged
  have "writeSync exampleConstants (response [message ''a'' ''@alice''] True) False ?w ?txn =
     (Inl (OldLiveFragmentMissing 0), ?w, ?txn)"
    by (simp add: prod_eq_iff)
  with adj g show ?thesis by simp
qed

text \<open>
  C8. \<open>writeSync\<close> leaves the writer's \<open>lastLiveKey\<close> as it was, whether it returns
  or throws and whatever key it hands back; \<open>afterSync\<close> sets it to its argument, which
  is then what the getter \<open>lastMessageKey\<close> reads.
\<close>

theorem writeSync_keeps_lastLiveKey:
  "lastLiveKey (fst (snd (writeSync c rr isRejoin w txn))) = lastLiveKey w
   \<and> lastLiveKey (afterSync k w) = k
   \<and> lastMessageKey (afterSync k w) = k"
proof -
  have "lastLiveKey (fst (snd (writeSync c rr isRejoin w txn))) = lastLiveKey w"
  proof (cases "rejoinAdjusted rr isRejoin w txn")
    case (Inl e)
    then show ?thesis by (simp add: writeSync_def rejoinAdjusted_def)
  next
    case (Inr tlo)
    from writeSync_unfold[OF Inr, of c] obtain ch txn1 where
      ws: "writeSync c rr isRejoin w txn =
               (case writeTimeline c tlo (lastLiveKey w) ch w txn1 of
                  (Inl e, w', txn') \<Rightarrow> (Inl e, w', txn')
                | (Inr (k, pushed, updated, changes'), w', txn') \<Rightarrow>
                    (Inr \<lparr>entries = pushed, updatedEntries = updated, newLiveKey = k,
                          memberChanges = changes'\<rparr>, w', txn'))"
      by blast
    obtain r w1 txn2 where wt: "writeTimeline c tlo (lastLiveKey w) ch w txn1 = (r, w1, txn2)"
      by (metis prod_cases3)
    from writeTimeline_lastLiveKey[OF wt] ws wt show ?thesis
      by (auto split: sum.splits prod.splits)
  qed
  then show ?thesis by (simp add: afterSync_def lastMessageKey_def)
qed

text \<open>
  C9, as amended. When there is no current key and the fragment store has a live fragment
  for the room, \<open>_createLiveFragment\<close> and \<open>_ensureLiveFragment\<close> hand that fragment
  back and leave the store and the comparer as they were. A \<open>writeSync\<close> call, whether
  it returns or throws, keeps the number of the fragments of a room without \<open>nextId\<close> at
  most one, provided that the writer's key, when it has one, is the key of every such
  fragment of its room.
\<close>

theorem live_fragment_kept_unique:
  "(\<forall>lf. liveFragment (roomId w) (timelineFragments txn) = Some lf \<longrightarrow>
        createLiveFragment c token w txn = (lf, w, txn)
      \<and> ensureLiveFragment c None es tline w txn =
          (Inr (\<lparr>fragmentId = f_id lf, eventIndex = eventIndex (defaultLiveKey c)\<rparr>,
                es @ [FragmentBoundaryStart lf]), w, txn))
   \<and> (liveCount r (timelineFragments txn) \<le> 1
      \<and> (\<forall>k. lastLiveKey w = Some k \<longrightarrow>
             (\<forall>f \<in> set (timelineFragments txn).
                 f_roomId f = roomId w \<and> nextId f = None \<longrightarrow> f_id f = fragmentId k))
      \<longrightarrow> liveCount r (timelineFragments (snd (snd (writeSync c rr isRejoin w txn)))) \<le> 1)"
proof (intro conjI allI impI)
  fix lf
  assume live: "liveFragment (roomId w) (timelineFragments txn) = Some lf"
  then show "createLiveFragment c token w txn = (lf, w, txn)"
    by (simp add: createLiveFragment_def)
  from live show "ensureLiveFragment c None es tline w txn =
          (Inr (\<lparr>fragmentId = f_id lf, eventIndex = eventIndex (defaultLiveKey c)\<rparr>,
                es @ [FragmentBoundaryStart lf]), w, txn)"
    by (rule ensureLiveFragment_existing)
next
  assume h: "liveCount r (timelineFragments txn) \<le> 1
      \<and> (\<forall>k. lastLiveKey w = Some k \<longrightarrow>
             (\<forall>f \<in> set (timelineFragments txn).
                 f_roomId f = roomId w \<and> nextId f = None \<longrightarrow> f_id f = fragmentId k))"
  from writeSync_fragments[of c rr isRejoin w txn]
  show "liveCount r (timelineFragments (snd (snd (writeSync c rr isRejoin w txn)))) \<le> 1"
  proof
    assume "timelineFragments (snd (snd (writeSync c rr isRejoin w txn))) = timelineFragments txn"
    with h show ?thesis by simp
  next
    assume "\<exists>tline es. timelineFragments (snd (snd (writeSync c rr isRejoin w txn))) =
         timelineFragments (snd (snd (ensureLiveFragment c (lastLiveKey w) es tline w txn)))"
    then obtain tline' es' where
      "timelineFragments (snd (snd (writeSync c rr isRejoin w txn))) =
         timelineFragments (snd (snd (ensureLiveFragment c (lastLiveKey w) es' tline' w txn)))"
      by blast
    with ensureLiveFragment_liveCount[of r txn "lastLiveKey w" w c es' tline'] h
    show ?thesis by simp
  qed
qed

theorem live_fragment_kept_unique_witness:
  "liveFragment ''!room'' [exampleFragment 0 None None] = Some (exampleFragment 0 None None)
   \<and> createLiveFragment exampleConstants (Some ''t1'') (exampleWriter storedProfiles None)
       (exampleTxn [exampleFragment 0 None None] []) =
       (exampleFragment 0 None None, exampleWriter storedProfiles None,
        exampleTxn [exampleFragment 0 None None] [])
   \<and> liveCount ''!room'' [exampleFragment 0 None None] \<le> 1
   \<and> f_id (exampleFragment 0 None None) = fragmentId \<lparr>fragmentId = 0, eventIndex = 5\<rparr>
   \<and> liveCount ''!room''
       (timelineFragments
         (snd (snd (writeSync exampleConstants (response [message ''a'' ''@alice''] True) False
                      keyedWriter (exampleTxn [exampleFragment 0 None None] [])))))
       \<le> 1"
proof -
  let ?F = "exampleFragment 0 None None"
  let ?w0 = "exampleWriter storedProfiles None"
  let ?txn = "exampleTxn [?F] []"
  have live: "liveFragment ''!room'' [?F] = Some ?F"
    by (simp add: liveFragment_def exampleFragment_def)
  then have live': "liveFragment (roomId ?w0) (timelineFragments ?txn) = Some ?F"
    by (simp add: exampleWriter_def constructor_def exampleTxn_def)
  from live_fragment_kept_unique[THEN conjunct1, rule_format, OF live', THEN conjunct1,
      of exampleConstants "Some ''t1''"]
  have created: "createLiveFragment exampleConstants (Some ''t1'') ?w0 ?txn = (?F, ?w0, ?txn)" .
  have inv: "liveCount ''!room'' [?F] \<le> 1"
    by (simp add: liveCount_def)
  have ids: "f_id ?F = fragmentId \<lparr>fragmentId = 0, eventIndex = 5\<rparr>"
    by (simp add: exampleFragment_def)
  have hyp: "liveCount ''!room'' (timelineFragments ?txn) \<le> 1
      \<and> (\<forall>k. lastLiveKey keyedWriter = Some k \<longrightarrow>
             (\<forall>f \<in> set (timelineFragments ?txn).
                 f_roomId f = roomId keyedWriter \<and> nextId f = None \<longrightarrow> f_id f = fragmentId k))"
    using inv by (simp add: exampleTxn_def keyedWriter_def exampleWriter_def exampleFragment_def)
  from live_fragment_kept_unique[THEN conjunct2, rule_format, OF hyp,
      of exampleConstants "response [message ''a'' ''@alice''] True" False]
  have kept: "liveCount ''!room''
       (timelineFragments
         (snd (snd (writeSync exampleConstants (response [message ''a'' ''@alice''] True) False
                      keyedWriter ?txn)))) \<le> 1" .
  from live created inv ids kept show ?thesis
    by (intro conjI)
qed

text \<open>
  The claim as it stands fails for a writer whose key names a fragment that already has a
  successor: the limited sync links a second open fragment after it.
\<close>

theorem stale_key_counterexample:
  "liveCount ''!room'' (timelineFragments movedOnTxn) = 1
   \<and> lastLiveKey keyedWriter = Some \<lparr>fragmentId = 0, eventIndex = 5\<rparr>
   \<and> timelineFragments
       (snd (snd (writeSync exampleConstants (response [message ''a'' ''@alice''] True) False
                    keyedWriter movedOnTxn))) =
       [exampleFragment 0 None (Some 1), exampleFragment 2 (Some 0) None,
        (exampleFragment 1 (Some 0) None)\<lparr>previousToken := Some ''t1''\<rparr>]
   \<and> liveCount ''!room''
       (timelineFragments
         (snd (snd (writeSync exampleConstants (response [message ''a'' ''@alice''] True) False
                      keyedWriter movedOnTxn)))) = 2"
  by (simp add: writer_defs example_defs keyedWriter_def movedOnTxn_def liveCount_def Let_def)

text \<open>
  C10. On a rejoin with a timeline, when the writer has no last live key, or the event
  store has no entry of the room in the fragment of that key, \<open>_handleRejoinOverlap\<close>
  hands back the response's timeline with \<open>limited\<close> set (itself, when it was limited
  already), and the \<open>writeSync\<close> call is the call without rejoin on the response with
  that timeline: its events and its \<open>prev_batch\<close> are unchanged.
\<close>

theorem rejoin_without_last_event:
  assumes tl: "timeline rr = Some tline"
    and none: "lastLiveKey w = None
             \<or> (\<exists>k. lastLiveKey w = Some k
                    \<and> (\<forall>e \<in> set (timelineEvents txn).
                          \<not> (s_roomId e = roomId w \<and> fragmentId (s_key e) = fragmentId k)))"
  shows "handleRejoinOverlap (timeline rr) w txn =
           Inr (if limited tline then tline else tline\<lparr>limited := True\<rparr>)
       \<and> rejoinAdjusted rr True w txn = Inr (Some (tline\<lparr>limited := True\<rparr>))
       \<and> writeSync c rr True w txn =
           writeSync c (rr\<lparr>timeline := Some (tline\<lparr>limited := True\<rparr>)\<rparr>) False w txn
       \<and> events (tline\<lparr>limited := True\<rparr>) = events tline
       \<and> prev_batch (tline\<lparr>limited := True\<rparr>) = prev_batch tline"
proof -
  from none have "lastLiveKey w = None
         \<or> (\<exists>k. lastLiveKey w = Some k
                \<and> lastEvents (roomId w) (fragmentId k) 1 (timelineEvents txn) = [])"
    using lastEvents_nil[of "roomId w" _ 0 "timelineEvents txn"] by auto
  from handleRejoinOverlap_no_last[OF this, of tline]
  have forced: "handleRejoinOverlap (Some tline) w txn = Inr (tline\<lparr>limited := True\<rparr>)" .
  then have "handleRejoinOverlap (timeline rr) w txn = Inr (tline\<lparr>limited := True\<rparr>)"
    using tl by simp
  then have "writeSync c rr True w txn =
           writeSync c (rr\<lparr>timeline := Some (tline\<lparr>limited := True\<rparr>)\<rparr>) False w txn"
    by (rule writeSync_rejoin)
  with forced tl show ?thesis
    by (auto simp: rejoinAdjusted_def)
qed

theorem rejoin_without_last_event_witness:
  "timeline (response [message ''a'' ''@alice''] False) =
     Some \<lparr>events = Some [message ''a'' ''@alice''], limited = False, prev_batch = Some ''t1''\<rparr>
   \<and> lastLiveKey (exampleWriter storedProfiles (Some \<lparr>fragmentId = 0, eventIndex = 5\<rparr>))
       = Some \<lparr>fragmentId = 0, eventIndex = 5\<rparr>
   \<and> lastEvents ''!room'' 0 1 [storedEntry 7 1 (message ''z'' ''@bob'')] = []
   \<and> rejoinAdjusted (response [message ''a'' ''@alice''] False) True
       (exampleWriter storedProfiles (Some \<lparr>fragmentId = 0, eventIndex = 5\<rparr>))
       (exampleTxn [exampleFragment 0 None None] [storedEntry 7 1 (message ''z'' ''@bob'')]) =
     Inr (Some \<lparr>events = Some [message ''a'' ''@alice''], limited = True, prev_batch = Some ''t1''\<rparr>)
   \<and> writeSync exampleConstants (response [message ''a'' ''@alice''] False) True
       (exampleWriter storedProfiles (Some \<lparr>fragmentId = 0, eventIndex = 5\<rparr>))
       (exampleTxn [exampleFragment 0 None None] [storedEntry 7 1 (message ''z'' ''@bob'')]) =
     writeSync exampleConstants (response [message ''a'' ''@alice''] True) False
       (exampleWriter storedProfiles (Some \<lparr>fragmentId = 0, eventIndex = 5\<rparr>))
       (exampleTxn [exampleFragment 0 None None] [storedEntry 7 1 (message ''z'' ''@bob'')])
   \<and> timelineFragments (snd (snd
       (writeSync exampleConstants (response [message ''a'' ''@alice''] False) True
          (exampleWriter storedProfiles (Some \<lparr>fragmentId = 0, eventIndex = 5\<rparr>))
          (exampleTxn [exampleFragment 0 None None] [storedEntry 7 1 (message ''z'' ''@bob'')])))) =
     [exampleFragment 0 None (Some 1),
      (exampleFragment 1 (Some 0) None)\<lparr>previousToken := Some ''t1''\<rparr>]"
proof -
  let ?w = "exampleWriter storedProfiles (Some \<lparr>fragmentId = 0, eventIndex = 5\<rparr>)"
  let ?txn = "exampleTxn [exampleFragment 0 None None] [storedEntry 7 1 (message ''z'' ''@bob'')]"
  let ?tl = "\<lparr>events = Some [message ''a'' ''@alice''], limited = False, prev_batch = Some ''t1''\<rparr>"
  have tl: "timeline (response [message ''a'' ''@alice''] False) = Some ?tl"
    by (simp add: response_def)
  have key: "lastLiveKey ?w = Some \<lparr>fragmentId = 0, eventIndex = 5\<rparr>"
    by (simp add: exampleWriter_def)
  have none: "lastLiveKey ?w = None
             \<or> (\<exists>k. lastLiveKey ?w = Some k
                    \<and> (\<forall>e \<in> set (timelineEvents ?txn).
                          \<not> (s_roomId e = roomId ?w \<and> fragmentId (s_key e) = fragmentId k)))"
    by (simp add: example_defs createEventEntry_def)
  have le: "lastEvents ''!room'' 0 1 [storedEntry 7 1 (message ''z'' ''@bob'')] = []"
    by (simp add: lastEvents_def storedEntry_def createEventEntry_def)
  have forced: "(response [message ''a'' ''@alice''] False)\<lparr>timeline := Some (?tl\<lparr>limited := True\<rparr>)\<rparr>
                  = response [message ''a'' ''@alice''] True"
    by (simp add: response_def)
  from rejoin_without_last_event[OF tl none, of exampleConstants]
  have adj: "rejoinAdjusted (response [message ''a'' ''@alice''] False) True ?w ?txn =
     Inr (Some \<lparr>events = Some [message ''a'' ''@alice''], limited = True, prev_batch = Some ''t1''\<rparr>)"
    and same: "writeSync exampleConstants (response [message ''a'' ''@alice''] False) True ?w ?txn =
     writeSync exampleConstants (response [message ''a'' ''@alice''] True) False ?w ?txn"
    unfolding forced by simp_all
  have "timelineFragments (snd (snd
       (writeSync exampleConstants (response [message ''a'' ''@alice''] True) False ?w ?txn))) =
     [exampleFragment 0 None (Some 1),
      (exampleFragment 1 (Some 0) None)\<lparr>previousToken := Some ''t1''\<rparr>]"
    by (simp add: writer_defs example_defs Let_def)
  with same have frs: "timelineFragments (snd (snd
       (writeSync exampleConstants (response [message ''a'' ''@alice''] False) True ?w ?txn))) =
     [exampleFragment 0 None (Some 1),
      (exampleFragment 1 (Some 0) None)\<lparr>previousToken := Some ''t1''\<rparr>]"
    by simp
  from tl key le adj same frs show ?thesis
    by (intro conjI)
qed

end
